theory Spec2Isabelle
  imports Main "HOL-Library.Word" "HOL-Library.List_Lexorder"
begin

section \<open>JavaScript values used by the content access layer\<close>

text \<open>
  A JavaScript string is a sequence of UTF-16 code units: \<open>length\<close> counts code
  units, \<open>===\<close> compares them one by one, and \<open>trim\<close> and the regular
  expression class \<open>\s\<close> are defined on single code units. A literal of the
  source is written \<open>lit ''...''\<close>.
\<close>

type_synonym js_string = "16 word list"

definition lit :: "string \<Rightarrow> js_string" where
  "lit s = map (\<lambda>c. of_nat (of_char c)) s"

text \<open>
  \<open>new Set(xs)\<close> and \<open>new Map(entries)\<close> keep insertion order: a value
  already in the set is not added again, and setting a key that is already in the map
  replaces its value where the key stands. Both are association lists here, so that
  spreading a set and \<open>Map.values()\<close> give their elements in that order.
\<close>

fun Set_add :: "'a \<Rightarrow> 'a list \<Rightarrow> 'a list" where
  "Set_add x [] = [x]"
| "Set_add x (y # ys) = (if y = x then y # ys else y # Set_add x ys)"

definition new_Set :: "'a list \<Rightarrow> 'a list" where
  "new_Set xs = foldl (\<lambda>s x. Set_add x s) [] xs"

fun Map_set :: "'k \<Rightarrow> 'v \<Rightarrow> ('k \<times> 'v) list \<Rightarrow> ('k \<times> 'v) list" where
  "Map_set k v [] = [(k, v)]"
| "Map_set k v ((k', v') # m) =
     (if k' = k then (k, v) # m else (k', v') # Map_set k v m)"

definition new_Map :: "('k \<times> 'v) list \<Rightarrow> ('k \<times> 'v) list" where
  "new_Map entries = foldl (\<lambda>m (k, v). Map_set k v m) [] entries"

fun Map_get :: "('k \<times> 'v) list \<Rightarrow> 'k \<Rightarrow> 'v option" where
  "Map_get [] k = None"
| "Map_get ((k', v') # m) k = (if k' = k then Some v' else Map_get m k)"

definition Map_values :: "('k \<times> 'v) list \<Rightarrow> 'v list" where
  "Map_values m = map snd m"

text \<open>\<open>a || b\<close> where \<open>a\<close> is an object or \<open>undefined\<close>/\<open>null\<close>.\<close>

fun or_else :: "'a option \<Rightarrow> 'a \<Rightarrow> 'a" where
  "or_else (Some a) b = a"
| "or_else None b = b"

section \<open>Data model (types.ts and the rows of the store)\<close>

record profile =
  pf_id :: js_string
  pf_name :: js_string
  pf_email :: "js_string option"
  pf_image :: "js_string option"

text \<open>A row of the \<open>posts\<close> table, and of the \<open>comments\<close> table.\<close>

record post_row =
  po_id :: js_string
  po_title :: js_string
  po_content :: js_string
  po_summary :: js_string
  po_author_id :: js_string
  po_created_at :: js_string

record comment_row =
  co_id :: js_string
  co_post_id :: js_string
  co_user_id :: js_string
  co_text :: js_string
  co_created_at :: js_string

text \<open>
  The objects handed to the caller: the row spread into a new object, with the view
  fields added. A field that JavaScript may leave \<open>null\<close> or absent is an option.
\<close>

record comment = comment_row +
  user :: "profile option"

record post = post_row +
  author :: "profile option"
  comments :: "comment list option"

text \<open>\<open>{ ...comment, user: u }\<close>\<close>

definition with_user :: "comment_row \<Rightarrow> profile option \<Rightarrow> comment" where
  "with_user c u =
     \<lparr>co_id = co_id c, co_post_id = co_post_id c, co_user_id = co_user_id c,
      co_text = co_text c, co_created_at = co_created_at c, user = u\<rparr>"

text \<open>\<open>{ ...post, author: a }\<close> and \<open>{ ...post, author: a, comments: cs }\<close>\<close>

definition with_author :: "post_row \<Rightarrow> profile option \<Rightarrow> post" where
  "with_author p a =
     \<lparr>po_id = po_id p, po_title = po_title p, po_content = po_content p,
      po_summary = po_summary p, po_author_id = po_author_id p,
      po_created_at = po_created_at p, author = a, comments = None\<rparr>"

definition with_author_comments :: "post_row \<Rightarrow> profile option \<Rightarrow> comment list \<Rightarrow> post" where
  "with_author_comments p a cs =
     \<lparr>po_id = po_id p, po_title = po_title p, po_content = po_content p,
      po_summary = po_summary p, po_author_id = po_author_id p,
      po_created_at = po_created_at p, author = a, comments = Some cs\<rparr>"

text \<open>The placeholder \<open>{ id: i, name: n }\<close>.\<close>

definition placeholder :: "js_string \<Rightarrow> js_string \<Rightarrow> profile" where
  "placeholder i n = \<lparr>pf_id = i, pf_name = n, pf_email = None, pf_image = None\<rparr>"

section \<open>The store\<close>

text \<open>
  A request to the store answers with \<open>{ data, error }\<close>, one of the two being
  \<open>null\<close>: the client library's response type is the union of a success carrying
  the data and a failure carrying the error. A \<open>.single()\<close> request that finds no
  row, or several, is a failure (code \<open>PGRST116\<close>), so the data of a successful
  \<open>.single()\<close> request is a row and the test \<open>if (!postData)\<close> of
  \<open>getPostById\<close> has no case of its own.
\<close>

datatype pg_error = PostgrestError (message: js_string) (code: js_string)

datatype 'a response = Failure pg_error | Success 'a

datatype column = Title | Content

record new_post =
  np_title :: js_string
  np_content :: js_string
  np_summary :: js_string
  np_author_id :: js_string

record comment_data =
  cd_postId :: js_string
  cd_user_id :: js_string
  cd_text :: js_string

text \<open>The requests the layer sends, one constructor for each query it builds.\<close>

datatype query =
    Select_posts
  | Select_post_by_id js_string
  | Select_profile_by_id js_string
  | Select_profiles_in "js_string list"
  | Select_comments_of_post js_string bool
  | Select_posts_by_author js_string
  | Insert_post new_post
  | Select_full_profile_by_id js_string
  | Text_search column js_string
  | Insert_comment js_string js_string js_string

text \<open>
  What the store answers to each request. The layer is a leaf over this contract, so
  every operation takes the store as a parameter and returns the requests it sent, in
  order, beside its result. The lines an operation writes to the console are not part
  of its result and are left out.
\<close>

record backend =
  select_posts :: "post_row list response"
  select_post_by_id :: "js_string \<Rightarrow> post_row response"
  select_profile_by_id :: "js_string \<Rightarrow> profile response"
  select_profiles_in :: "js_string list \<Rightarrow> profile list response"
  select_comments_of_post :: "js_string \<Rightarrow> comment_row list response"
  select_posts_by_author :: "js_string \<Rightarrow> post_row list response"
  insert_post :: "new_post \<Rightarrow> post_row response"
  select_full_profile_by_id :: "js_string \<Rightarrow> profile response"
  text_search :: "column \<Rightarrow> js_string \<Rightarrow> post_row list response"
  insert_comment :: "js_string \<Rightarrow> js_string \<Rightarrow> js_string \<Rightarrow> comment_row response"

section \<open>The content access layer\<close>

definition getPosts :: "backend \<Rightarrow> query list \<times> post list" where
  "getPosts b =
     (case select_posts b of
        Failure postsError \<Rightarrow> ([Select_posts], [])
      | Success postsData \<Rightarrow>
          (let authorIds = new_Set (map po_author_id postsData) in
           if length authorIds = 0 then ([Select_posts], [])
           else
             (case select_profiles_in b authorIds of
                Failure profilesError \<Rightarrow>
                  ([Select_posts, Select_profiles_in authorIds],
                   map (\<lambda>post. with_author post
                          (Some (placeholder (po_author_id post) (lit ''Unknown Author''))))
                     postsData)
              | Success profilesData \<Rightarrow>
                  (let profilesById = new_Map (map (\<lambda>p. (pf_id p, p)) profilesData);
                       postsWithAuthors =
                         map (\<lambda>post. with_author post
                                (Some (or_else (Map_get profilesById (po_author_id post))
                                   (placeholder (po_author_id post) (lit ''Unknown Author'')))))
                           postsData
                   in ([Select_posts, Select_profiles_in authorIds], postsWithAuthors)))))"


text \<open>The value of \<open>r.data\<close>: \<open>null\<close> on a failure.\<close>

fun data :: "'a response \<Rightarrow> 'a option" where
  "data (Success d) = Some d"
| "data (Failure e) = None"

text \<open>
  Modelled from the spec: the store is an outside service, and what it does with
  \<open>.order('created_at', { ascending })\<close> is not in the sources. The spec has it
  expose ordering (section 6), and has the comments of a post fetched "ordered ascending
  by creation time" (section 4.1). So the answer to an ordered request is the matching
  rows sorted on the column, ascending or descending as the request asks, rows with the
  same time stamp in any order. The field \<open>select_comments_of_post\<close> of the store
  gives the matching rows as the table holds them. Time stamps come as strings of one
  format and zone (ISO 8601), whose order in time is their order as strings.
\<close>

definition order_by_created_at :: "bool \<Rightarrow> comment_row list \<Rightarrow> comment_row list" where
  "order_by_created_at ascending rows =
     (if ascending then sort_key co_created_at rows else rev (sort_key co_created_at rows))"

text \<open>
  The request
  \<open>from('comments').select('*').eq('post_id', i).order('created_at', { ascending })\<close>.
\<close>

definition comments_of_post :: "backend \<Rightarrow> js_string \<Rightarrow> bool \<Rightarrow> comment_row list response" where
  "comments_of_post b i ascending =
     (case select_comments_of_post b i of
        Failure e \<Rightarrow> Failure e
      | Success rows \<Rightarrow> Success (order_by_created_at ascending rows))"

text \<open>
  \<open>getPostById\<close>: the author request is sent whatever it answers (its error is only
  logged), then the comments request, then the batch of commenters when there is one.
\<close>

definition getPostById :: "backend \<Rightarrow> js_string \<Rightarrow> query list \<times> post option" where
  "getPostById b i =
     (case select_post_by_id b i of
        Failure postError \<Rightarrow> ([Select_post_by_id i], None)
      | Success postData \<Rightarrow>
          (let authorData = data (select_profile_by_id b (po_author_id postData));
               sent = [Select_post_by_id i, Select_profile_by_id (po_author_id postData),
                       Select_comments_of_post i True]
           in case comments_of_post b i True of
                Failure commentsError \<Rightarrow>
                  (sent,
                   Some (with_author_comments postData
                     (Some (or_else authorData (placeholder (po_author_id postData) (lit ''Unknown''))))
                     []))
              | Success commentsData \<Rightarrow>
                  (let userIds = new_Set (map co_user_id commentsData);
                       (sent', usersById) =
                         (if length userIds > 0 then
                            (case select_profiles_in b userIds of
                               Failure usersError \<Rightarrow> (sent @ [Select_profiles_in userIds], [])
                             | Success usersData \<Rightarrow>
                                 (sent @ [Select_profiles_in userIds],
                                  new_Map (map (\<lambda>u. (pf_id u, u)) usersData)))
                          else (sent, []));
                       commentsWithUsers =
                         map (\<lambda>comment. with_user comment
                                (Some (or_else (Map_get usersById (co_user_id comment))
                                   (placeholder (co_user_id comment) (lit ''Unknown'')))))
                           commentsData
                   in (sent',
                       Some (with_author_comments postData
                         (Some (or_else authorData
                            (placeholder (po_author_id postData) (lit ''Unknown''))))
                         commentsWithUsers)))))"

definition getPostsByAuthor :: "backend \<Rightarrow> js_string \<Rightarrow> query list \<times> post list" where
  "getPostsByAuthor b authorId =
     (case select_profile_by_id b authorId of
        Failure authorError \<Rightarrow> ([Select_profile_by_id authorId], [])
      | Success authorData \<Rightarrow>
          (case select_posts_by_author b authorId of
             Failure postsError \<Rightarrow>
               ([Select_profile_by_id authorId, Select_posts_by_author authorId], [])
           | Success postsData \<Rightarrow>
               ([Select_profile_by_id authorId, Select_posts_by_author authorId],
                map (\<lambda>post. with_author post (Some authorData)) postsData)))"

text \<open>\<open>throw new Error(m)\<close> is the left injection of the result.\<close>

datatype js_error = Error js_string

definition createPost :: "backend \<Rightarrow> new_post \<Rightarrow> query list \<times> (js_error + post)" where
  "createPost b postData =
     (case insert_post b postData of
        Failure error \<Rightarrow> ([Insert_post postData], Inl (Error (lit ''Could not create post.'')))
      | Success row \<Rightarrow>
          (case select_full_profile_by_id b (po_author_id row) of
             Failure profileError \<Rightarrow>
               ([Insert_post postData, Select_full_profile_by_id (po_author_id row)],
                Inr (with_author row (Some (placeholder (po_author_id row) (lit ''Unknown'')))))
           | Success profile \<Rightarrow>
               ([Insert_post postData, Select_full_profile_by_id (po_author_id row)],
                Inr (with_author row (Some profile)))))"

text \<open>
  White space as \<open>String.prototype.trim\<close> and \<open>\s\<close> have it: the code units
  of WhiteSpace and LineTerminator.
\<close>

definition is_ws :: "16 word \<Rightarrow> bool" where
  "is_ws c \<longleftrightarrow>
     c = 0x09 \<or> c = 0x0A \<or> c = 0x0B \<or> c = 0x0C \<or> c = 0x0D \<or> c = 0x20 \<or> c = 0xA0 \<or>
     c = 0x1680 \<or> (0x2000 \<le> c \<and> c \<le> 0x200A) \<or> c = 0x2028 \<or> c = 0x2029 \<or>
     c = 0x202F \<or> c = 0x205F \<or> c = 0x3000 \<or> c = 0xFEFF"

definition trim :: "js_string \<Rightarrow> js_string" where
  "trim s = rev (dropWhile is_ws (rev (dropWhile is_ws s)))"

text \<open>
  \<open>s.split(/\s+/)\<close>: the pieces between the maximal runs of white space; a run at
  either end leaves an empty piece there, and a string with no white space is one piece.
\<close>

function split_ws :: "js_string \<Rightarrow> js_string list" where
  "split_ws s =
     (case dropWhile (\<lambda>c. \<not> is_ws c) s of
        [] \<Rightarrow> [s]
      | sep # rest \<Rightarrow> takeWhile (\<lambda>c. \<not> is_ws c) s # split_ws (dropWhile is_ws rest))"
  by pat_completeness auto
termination
proof (relation "measure length")
  fix s :: js_string and sep rest
  assume "dropWhile (\<lambda>c. \<not> is_ws c) s = sep # rest"
  then have "length rest < length s"
    using length_dropWhile_le [of "\<lambda>c. \<not> is_ws c" s] by simp
  moreover have "length (dropWhile is_ws rest) \<le> length rest"
    by (rule length_dropWhile_le)
  ultimately show "(dropWhile is_ws rest, s) \<in> measure length"
    by simp
qed simp

declare split_ws.simps [simp del]

text \<open>\<open>pieces.join(sep)\<close>\<close>

fun join :: "js_string \<Rightarrow> js_string list \<Rightarrow> js_string" where
  "join sep [] = []"
| "join sep [x] = x"
| "join sep (x # y # ys) = x @ sep @ join sep (y # ys)"

text \<open>
  \<open>searchPosts\<close>: the guard \<open>if (!query)\<close> is true of the empty string alone;
  the two searches of \<open>Promise.all\<close> are both sent before either answer is read.
\<close>

definition searchPosts :: "backend \<Rightarrow> js_string \<Rightarrow> query list \<times> post list" where
  "searchPosts b query =
     (if query = [] then ([], [])
      else
        (let formattedQuery = join (lit '' | '') (split_ws (trim query));
             titleSearch = text_search b Title formattedQuery;
             contentSearch = text_search b Content formattedQuery;
             sent = [Text_search Title formattedQuery, Text_search Content formattedQuery];
             titleResults = or_else (data titleSearch) [];
             contentResults = or_else (data contentSearch) [];
             postsData = Map_values (new_Map (map (\<lambda>post. (po_id post, post))
                                                 (titleResults @ contentResults)))
         in if length postsData = 0 then (sent, [])
            else
              (let authorIds = new_Set (map po_author_id postsData) in
               case select_profiles_in b authorIds of
                 Failure profilesError \<Rightarrow>
                   (sent @ [Select_profiles_in authorIds],
                    map (\<lambda>post. with_author post
                           (Some (placeholder (po_author_id post) (lit ''Unknown Author''))))
                      postsData)
               | Success profilesData \<Rightarrow>
                   (let profilesById = new_Map (map (\<lambda>p. (pf_id p, p)) profilesData)
                    in (sent @ [Select_profiles_in authorIds],
                        map (\<lambda>post. with_author post
                               (Some (or_else (Map_get profilesById (po_author_id post))
                                  (placeholder (po_author_id post) (lit ''Unknown Author'')))))
                          postsData)))))"

definition addComment :: "backend \<Rightarrow> comment_data \<Rightarrow> query list \<times> (js_error + comment_row)" where
  "addComment b commentData =
     (case insert_comment b (cd_postId commentData) (cd_user_id commentData) (cd_text commentData) of
        Failure error \<Rightarrow>
          ([Insert_comment (cd_postId commentData) (cd_user_id commentData) (cd_text commentData)],
           Inl (Error (lit ''Could not add comment.'')))
      | Success row \<Rightarrow>
          ([Insert_comment (cd_postId commentData) (cd_user_id commentData) (cd_text commentData)],
           Inr row))"

section \<open>The summary service (geminiService.ts)\<close>

text \<open>
  The generative-text client is a parameter. Building it (reading the key from the
  environment and calling the constructor) is the first statement of the \<open>try\<close>
  block and may throw; \<open>generateContent\<close> may throw, and the \<open>text\<close> of its
  response may be \<open>undefined\<close>.
\<close>

record genai =
  new_GoogleGenAI :: "js_error option"
  generateContent :: "js_string \<Rightarrow> js_error + js_string option"

definition too_short_message :: js_string where
  "too_short_message = lit ''Content is too short to generate a meaningful summary.''"

definition error_message :: js_string where
  "error_message = lit ''There was an error generating the AI summary. Please try again later.''"

definition prompt_of :: "js_string \<Rightarrow> js_string" where
  "prompt_of content =
     lit ''Summarize the following blog post content in a concise paragraph (around 50-70 words). Capture the main idea and key takeaways. Here is the content:''
     @ [0x0A, 0x0A] @ lit ''---'' @ [0x0A, 0x0A] @ content"

text \<open>
  The body of the \<open>try\<close> block: the prompts sent to the service, and either the
  error thrown or the string returned.
\<close>

definition generateSummary_try :: "genai \<Rightarrow> js_string \<Rightarrow> js_string list \<times> (js_error + js_string)" where
  "generateSummary_try ai content =
     (case new_GoogleGenAI ai of
        Some e \<Rightarrow> ([], Inl e)
      | None \<Rightarrow>
          if content = [] then
            ([], Inl (Error (lit ''Content is required to generate a summary.'')))
          else if length content < 50 then ([], Inr too_short_message)
          else
            (case generateContent ai (prompt_of content) of
               Inl e \<Rightarrow> ([prompt_of content], Inl e)
             | Inr None \<Rightarrow>
                 ([prompt_of content], Inl (Error (lit ''The AI did not return a summary.'')))
             | Inr (Some summary) \<Rightarrow>
                 if summary = [] then
                   ([prompt_of content], Inl (Error (lit ''The AI did not return a summary.'')))
                 else ([prompt_of content], Inr summary)))"

text \<open>The \<open>catch\<close> clause turns every error of the body into the fixed message.\<close>

definition generateSummary :: "genai \<Rightarrow> js_string \<Rightarrow> js_string list \<times> js_string" where
  "generateSummary ai content =
     (case generateSummary_try ai content of
        (calls, Inl error) \<Rightarrow> (calls, error_message)
      | (calls, Inr summary) \<Rightarrow> (calls, summary))"


section \<open>Example stores\<close>

definition alice :: profile where
  "alice = \<lparr>pf_id = lit ''u1'', pf_name = lit ''Alice'', pf_email = None, pf_image = None\<rparr>"

definition post_a :: post_row where
  "post_a = \<lparr>po_id = lit ''p1'', po_title = lit ''Hello'', po_content = lit ''World'',
     po_summary = lit ''s1'', po_author_id = lit ''u1'', po_created_at = lit ''2024-02-01''\<rparr>"

definition post_b :: post_row where
  "post_b = \<lparr>po_id = lit ''p2'', po_title = lit ''Other'', po_content = lit ''Hello'',
     po_summary = lit ''s2'', po_author_id = lit ''u2'', po_created_at = lit ''2024-01-01''\<rparr>"

text \<open>A second copy of the row \<open>p1\<close>, read after its title was edited.\<close>

definition post_a' :: post_row where
  "post_a' = post_a\<lparr>po_title := lit ''Hello again''\<rparr>"

definition comment_1 :: comment_row where
  "comment_1 = \<lparr>co_id = lit ''c1'', co_post_id = lit ''p1'', co_user_id = lit ''u1'',
     co_text = lit ''first'', co_created_at = lit ''2024-02-02''\<rparr>"

definition comment_2 :: comment_row where
  "comment_2 = \<lparr>co_id = lit ''c2'', co_post_id = lit ''p1'', co_user_id = lit ''u3'',
     co_text = lit ''second'', co_created_at = lit ''2024-02-03''\<rparr>"

definition not_found :: pg_error where
  "not_found = PostgrestError (lit ''no rows returned'') (lit ''PGRST116'')"

definition unavailable :: pg_error where
  "unavailable = PostgrestError (lit ''fetch failed'') []"

text \<open>
  A store holding the posts \<open>p1\<close> (by \<open>u1\<close>, with two comments, the later one
  first in the table) and \<open>p2\<close> (by \<open>u2\<close>), and the profile of \<open>u1\<close> only.
\<close>

definition store_up :: backend where
  "store_up =
     \<lparr>select_posts = Success [post_a, post_b],
      select_post_by_id =
        (\<lambda>i. if i = lit ''p1'' then Success post_a
             else if i = lit ''p2'' then Success post_b else Failure not_found),
      select_profile_by_id = (\<lambda>i. if i = lit ''u1'' then Success alice else Failure not_found),
      select_profiles_in = (\<lambda>ids. Success (filter (\<lambda>p. pf_id p \<in> set ids) [alice])),
      select_comments_of_post =
        (\<lambda>i. if i = lit ''p1'' then Success [comment_2, comment_1] else Success []),
      select_posts_by_author =
        (\<lambda>a. Success (filter (\<lambda>p. po_author_id p = a) [post_a, post_b])),
      insert_post =
        (\<lambda>n. Success \<lparr>po_id = lit ''p3'', po_title = np_title n, po_content = np_content n,
                po_summary = np_summary n, po_author_id = np_author_id n,
                po_created_at = lit ''2024-03-01''\<rparr>),
      select_full_profile_by_id =
        (\<lambda>i. if i = lit ''u1'' then Success alice else Failure not_found),
      text_search =
        (\<lambda>col q. case col of Title \<Rightarrow> Success [post_a] | Content \<Rightarrow> Success [post_a', post_b]),
      insert_comment =
        (\<lambda>p u t. Success \<lparr>co_id = lit ''c3'', co_post_id = p, co_user_id = u, co_text = t,
                co_created_at = lit ''2024-03-02''\<rparr>)\<rparr>"

text \<open>The same store when every request for profiles fails.\<close>

definition store_profiles_down :: backend where
  "store_profiles_down =
     store_up\<lparr>select_profile_by_id := (\<lambda>i. Failure unavailable),
              select_profiles_in := (\<lambda>ids. Failure unavailable),
              select_full_profile_by_id := (\<lambda>i. Failure unavailable)\<rparr>"

text \<open>The same store when the request for comments fails.\<close>

definition store_comments_down :: backend where
  "store_comments_down = store_up\<lparr>select_comments_of_post := (\<lambda>i. Failure unavailable)\<rparr>"

text \<open>A store that fails every request.\<close>

definition store_down :: backend where
  "store_down =
     \<lparr>select_posts = Failure unavailable,
      select_post_by_id = (\<lambda>i. Failure unavailable),
      select_profile_by_id = (\<lambda>i. Failure unavailable),
      select_profiles_in = (\<lambda>ids. Failure unavailable),
      select_comments_of_post = (\<lambda>i. Failure unavailable),
      select_posts_by_author = (\<lambda>a. Failure unavailable),
      insert_post = (\<lambda>n. Failure unavailable),
      select_full_profile_by_id = (\<lambda>i. Failure unavailable),
      text_search = (\<lambda>col q. Failure unavailable),
      insert_comment = (\<lambda>p u t. Failure unavailable)\<rparr>"

text \<open>
  A client that cannot be built (no key in the environment), one whose service is down,
  one that answers without text, and one that answers.
\<close>

definition ai_no_key :: genai where
  "ai_no_key =
     \<lparr>new_GoogleGenAI = Some (Error (lit ''An API Key must be set when running in a browser'')),
      generateContent = (\<lambda>prompt. Inr (Some (lit ''A summary.'')))\<rparr>"

definition ai_down :: genai where
  "ai_down = \<lparr>new_GoogleGenAI = None, generateContent = (\<lambda>prompt. Inl (Error (lit ''503'')))\<rparr>"

definition ai_silent :: genai where
  "ai_silent = \<lparr>new_GoogleGenAI = None, generateContent = (\<lambda>prompt. Inr None)\<rparr>"

definition ai_up :: genai where
  "ai_up = \<lparr>new_GoogleGenAI = None, generateContent = (\<lambda>prompt. Inr (Some (lit ''A summary.'')))\<rparr>"

definition long_content :: js_string where
  "long_content = lit ''The quick brown fox jumps over the lazy dog, twice over.''"

definition new_post_1 :: new_post where
  "new_post_1 = \<lparr>np_title = lit ''New'', np_content = lit ''Body'', np_summary = lit ''Sum'',
     np_author_id = lit ''u1''\<rparr>"

definition comment_data_1 :: comment_data where
  "comment_data_1 = \<lparr>cd_postId = lit ''p1'', cd_user_id = lit ''u1'', cd_text = lit ''third''\<rparr>"

section \<open>Insertion-ordered sets and maps\<close>

lemma set_Set_add: "set (Set_add x s) = insert x (set s)"
  by (induction s) auto

lemma set_foldl_Set_add: "set (foldl (\<lambda>s x. Set_add x s) acc xs) = set acc \<union> set xs"
  by (induction xs arbitrary: acc) (auto simp: set_Set_add)

lemma set_new_Set: "set (new_Set xs) = set xs"
  by (simp add: new_Set_def set_foldl_Set_add)

lemma new_Set_Nil_iff: "new_Set xs = [] \<longleftrightarrow> xs = []"
  using set_new_Set [of xs] by (metis set_empty)

lemma key_in_keys: "(k, v) \<in> set m \<Longrightarrow> k \<in> fst ` set m"
  by force

lemma Map_get_Map_set: "Map_get (Map_set k v m) k' = (if k' = k then Some v else Map_get m k')"
  by (induction m) auto

lemma map_fst_Map_set:
  "map fst (Map_set k v m) = (if k \<in> fst ` set m then map fst m else map fst m @ [k])"
  by (induction m) (auto dest: key_in_keys)

lemma distinct_Map_set: "distinct (map fst m) \<Longrightarrow> distinct (map fst (Map_set k v m))"
  by (simp add: map_fst_Map_set)

lemma Map_get_foldl:
  "Map_get (foldl (\<lambda>m (k, v). Map_set k v m) acc es) k =
     (case map_of (rev es) k of Some v \<Rightarrow> Some v | None \<Rightarrow> Map_get acc k)"
proof (induction es arbitrary: acc)
  case Nil
  then show ?case by simp
next
  case (Cons e es)
  obtain k' v' where e: "e = (k', v')" by (cases e)
  show ?case
    by (simp add: e Cons.IH Map_get_Map_set map_add_def split: option.splits)
qed

lemma Map_get_new_Map: "Map_get (new_Map es) k = map_of (rev es) k"
  by (simp add: new_Map_def Map_get_foldl split: option.splits)

lemma distinct_foldl_Map_set:
  "distinct (map fst acc) \<Longrightarrow> distinct (map fst (foldl (\<lambda>m (k, v). Map_set k v m) acc es))"
proof (induction es arbitrary: acc)
  case Nil
  then show ?case by simp
next
  case (Cons e es)
  obtain k' v' where e: "e = (k', v')" by (cases e)
  show ?case
    using Cons.prems by (simp add: e Cons.IH distinct_Map_set)
qed

lemma distinct_new_Map: "distinct (map fst (new_Map es))"
  by (simp add: new_Map_def distinct_foldl_Map_set)

lemma Map_get_None_iff: "Map_get m k = None \<longleftrightarrow> k \<notin> fst ` set m"
proof (induction m)
  case Nil
  then show ?case by simp
next
  case (Cons p m)
  obtain k' v' where p: "p = (k', v')" by (cases p)
  show ?case using Cons.IH by (simp add: p)
qed

lemma Map_get_Some_iff: "distinct (map fst m) \<Longrightarrow> Map_get m k = Some v \<longleftrightarrow> (k, v) \<in> set m"
proof (induction m)
  case Nil
  then show ?case by simp
next
  case (Cons p m)
  obtain k' v' where p: "p = (k', v')" by (cases p)
  have ih: "Map_get m k = Some v \<longleftrightarrow> (k, v) \<in> set m"
    using Cons by simp
  have notin: "(k', v) \<notin> set m"
    using Cons.prems p key_in_keys [of k' v m] by auto
  show ?case
  proof (cases "k' = k")
    case True
    with notin show ?thesis by (auto simp: p)
  next
    case False
    with ih show ?thesis by (simp add: p)
  qed
qed

lemma keys_new_Map: "fst ` set (new_Map es) = fst ` set es"
proof -
  have "k \<in> fst ` set (new_Map es) \<longleftrightarrow> k \<in> fst ` set es" for k
    using Map_get_None_iff [of "new_Map es" k] Map_get_new_Map [of es k]
    by (simp add: map_of_eq_None_iff)
  then show ?thesis by blast
qed

lemma map_of_rev_keyed:
  "map_of (rev (map (\<lambda>r. (f r, r)) xs)) k =
     (if filter (\<lambda>r. f r = k) xs = [] then None else Some (last (filter (\<lambda>r. f r = k) xs)))"
  by (induction xs rule: rev_induct) auto

lemma last_filter_sat: "filter P xs \<noteq> [] \<Longrightarrow> P (last (filter P xs))"
  using last_in_set [of "filter P xs"] by simp

lemma new_Map_keyed:
  assumes "(k, v) \<in> set (new_Map (map (\<lambda>r. (f r, r)) xs))"
  shows "f v = k"
proof -
  have "Map_get (new_Map (map (\<lambda>r. (f r, r)) xs)) k = Some v"
    using assms by (simp add: Map_get_Some_iff distinct_new_Map)
  then have ne: "filter (\<lambda>r. f r = k) xs \<noteq> []" and v: "v = last (filter (\<lambda>r. f r = k) xs)"
    by (simp_all add: Map_get_new_Map map_of_rev_keyed split: if_splits)
  show ?thesis using last_filter_sat [OF ne] v by simp
qed

lemma filter_values_distinct:
  "distinct (map fst m) \<Longrightarrow> (\<And>k v. (k, v) \<in> set m \<Longrightarrow> f v = k) \<Longrightarrow>
   filter (\<lambda>v. f v = k) (map snd m) = (case Map_get m k of None \<Rightarrow> [] | Some v \<Rightarrow> [v])"
proof (induction m)
  case Nil
  then show ?case by simp
next
  case (Cons p m)
  obtain k' v' where p: "p = (k', v')" by (cases p)
  have fv: "f v' = k'" using Cons.prems(2) [of k' v'] p by simp
  have ih: "filter (\<lambda>v. f v = k) (map snd m) = (case Map_get m k of None \<Rightarrow> [] | Some v \<Rightarrow> [v])"
    using Cons by simp
  show ?case
  proof (cases "k' = k")
    case True
    then have "k \<notin> fst ` set m" using Cons.prems(1) p by auto
    then have "Map_get m k = None" by (simp add: Map_get_None_iff)
    with ih True fv p show ?thesis by simp
  next
    case False
    with ih fv p show ?thesis by simp
  qed
qed

lemma merged_copy:
  "filter (\<lambda>v. f v = k) (Map_values (new_Map (map (\<lambda>r. (f r, r)) xs))) =
     (if filter (\<lambda>r. f r = k) xs = [] then [] else [last (filter (\<lambda>r. f r = k) xs)])"
proof -
  let ?m = "new_Map (map (\<lambda>r. (f r, r)) xs)"
  have "filter (\<lambda>v. f v = k) (map snd ?m) = (case Map_get ?m k of None \<Rightarrow> [] | Some v \<Rightarrow> [v])"
    by (rule filter_values_distinct) (rule distinct_new_Map, erule new_Map_keyed)
  then show ?thesis
    by (simp add: Map_values_def Map_get_new_Map map_of_rev_keyed)
qed

lemma map_f_merged:
  "map f (Map_values (new_Map (map (\<lambda>r. (f r, r)) xs))) = map fst (new_Map (map (\<lambda>r. (f r, r)) xs))"
proof -
  have "f (snd p) = fst p" if "p \<in> set (new_Map (map (\<lambda>r. (f r, r)) xs))" for p
    using that new_Map_keyed [of "fst p" "snd p" f xs] by simp
  then show ?thesis by (simp add: Map_values_def)
qed

section \<open>Reading the row back from a returned object\<close>

lemma truncate_with_author: "post_row.truncate (with_author r a) = r"
  by (simp add: with_author_def post_row.truncate_def)

lemma truncate_with_user: "comment_row.truncate (with_user c u) = c"
  by (simp add: with_user_def comment_row.truncate_def)

lemma author_with_author: "author (with_author r a) = a"
  by (simp add: with_author_def)

lemma po_author_id_with_author: "po_author_id (with_author r a) = po_author_id r"
  by (simp add: with_author_def)

lemma co_user_id_with_user: "co_user_id (with_user c u) = co_user_id c"
  by (simp add: with_user_def)

lemma co_created_at_with_user: "co_created_at (with_user c u) = co_created_at c"
  by (simp add: with_user_def)

lemma user_with_user: "user (with_user c u) = u"
  by (simp add: with_user_def)

lemma author_with_author_comments: "author (with_author_comments r a cs) = a"
  by (simp add: with_author_comments_def)

lemma comments_with_author_comments: "comments (with_author_comments r a cs) = Some cs"
  by (simp add: with_author_comments_def)

lemma po_author_id_with_author_comments: "po_author_id (with_author_comments r a cs) = po_author_id r"
  by (simp add: with_author_comments_def)

text \<open>Looking a key up in the map built from a batch of profiles.\<close>

lemma Map_get_profiles:
  "Map_get (new_Map (map (\<lambda>p. (pf_id p, p)) ps)) k =
     (if k \<in> pf_id ` set ps then Some (last (filter (\<lambda>p. pf_id p = k) ps)) else None)"
proof -
  have "filter (\<lambda>p. pf_id p = k) ps = [] \<longleftrightarrow> k \<notin> pf_id ` set ps"
    by (auto simp: filter_empty_conv)
  then show ?thesis
    by (simp add: Map_get_new_Map map_of_rev_keyed)
qed

lemma looked_up_profile:
  assumes "k \<in> pf_id ` set ps"
  shows "\<exists>a \<in> set ps. pf_id a = k \<and>
     or_else (Map_get (new_Map (map (\<lambda>p. (pf_id p, p)) ps)) k) d = a"
proof -
  let ?hits = "filter (\<lambda>p. pf_id p = k) ps"
  have ne: "?hits \<noteq> []"
    using assms by (auto simp: filter_empty_conv)
  have "last ?hits \<in> set ?hits"
    using ne by (rule last_in_set)
  then have "last ?hits \<in> set ps" "pf_id (last ?hits) = k"
    by simp_all
  then show ?thesis
    using assms by (auto simp: Map_get_profiles)
qed

lemma missing_profile:
  assumes "k \<notin> pf_id ` set ps"
  shows "or_else (Map_get (new_Map (map (\<lambda>p. (pf_id p, p)) ps)) k) d = d"
  using assms by (simp add: Map_get_profiles)

text \<open>The two ways the list operations attach authors.\<close>

lemma placeholder_authors:
  assumes "p \<in> set (map (\<lambda>post. with_author post (Some (placeholder (po_author_id post) n))) postsData)"
  shows "author p = Some (placeholder (po_author_id p) n)"
  using assms by (auto simp: author_with_author po_author_id_with_author)

lemma joined_authors:
  assumes "p \<in> set (map (\<lambda>post. with_author post
              (Some (or_else (Map_get (new_Map (map (\<lambda>p. (pf_id p, p)) profilesData))
                               (po_author_id post))
                       (placeholder (po_author_id post) n)))) postsData)"
  shows "(po_author_id p \<notin> pf_id ` set profilesData \<longrightarrow>
            author p = Some (placeholder (po_author_id p) n)) \<and>
         (po_author_id p \<in> pf_id ` set profilesData \<longrightarrow>
            (\<exists>a \<in> set profilesData. pf_id a = po_author_id p \<and> author p = Some a))"
proof -
  obtain post where p: "p = with_author post
      (Some (or_else (Map_get (new_Map (map (\<lambda>p. (pf_id p, p)) profilesData)) (po_author_id post))
               (placeholder (po_author_id post) n)))"
    using assms by auto
  have k: "po_author_id p = po_author_id post"
    by (simp add: p po_author_id_with_author)
  have a: "author p = Some (or_else (Map_get (new_Map (map (\<lambda>p. (pf_id p, p)) profilesData))
      (po_author_id post)) (placeholder (po_author_id post) n))"
    by (simp add: p author_with_author)
  show ?thesis
    using looked_up_profile [of "po_author_id post" profilesData "placeholder (po_author_id post) n"]
      missing_profile [of "po_author_id post" profilesData "placeholder (po_author_id post) n"]
    by (auto simp: k a)
qed

text \<open>
  The shape shared by the results of \<open>getPosts\<close> and \<open>searchPosts\<close>: no post and no
  batch request, or one batch request that failed, or one that succeeded.
\<close>

lemma hydrated_authors:
  assumes h: "snd r = [] \<and> (\<forall>ids. Select_profiles_in ids \<notin> set (fst r)) \<or>
     (\<exists>postsData ids e.
        (\<forall>ids'. Select_profiles_in ids' \<in> set (fst r) \<longrightarrow> ids' = ids) \<and>
        select_profiles_in b ids = Failure e \<and>
        snd r = map (\<lambda>post. with_author post (Some (placeholder (po_author_id post) n))) postsData) \<or>
     (\<exists>postsData ids profilesData.
        (\<forall>ids'. Select_profiles_in ids' \<in> set (fst r) \<longrightarrow> ids' = ids) \<and>
        select_profiles_in b ids = Success profilesData \<and>
        snd r =
          map (\<lambda>post. with_author post
                 (Some (or_else (Map_get (new_Map (map (\<lambda>p. (pf_id p, p)) profilesData))
                                  (po_author_id post))
                          (placeholder (po_author_id post) n))))
            postsData)"
    and p: "p \<in> set (snd r)"
  shows "author p \<noteq> None \<and>
    (\<forall>ids. Select_profiles_in ids \<in> set (fst r) \<longrightarrow>
       (\<forall>e. select_profiles_in b ids = Failure e \<longrightarrow>
          author p = Some (placeholder (po_author_id p) n)) \<and>
       (\<forall>profilesData. select_profiles_in b ids = Success profilesData \<longrightarrow>
          (po_author_id p \<notin> pf_id ` set profilesData \<longrightarrow>
             author p = Some (placeholder (po_author_id p) n)) \<and>
          (po_author_id p \<in> pf_id ` set profilesData \<longrightarrow>
             (\<exists>a \<in> set profilesData. pf_id a = po_author_id p \<and> author p = Some a))))"
  using h
proof (elim disjE exE conjE)
  assume "snd r = []"
  with p show ?thesis by simp
next
  fix postsData ids e
  assume sent: "\<forall>ids'. Select_profiles_in ids' \<in> set (fst r) \<longrightarrow> ids' = ids"
    and fail: "select_profiles_in b ids = Failure e"
    and res: "snd r =
       map (\<lambda>post. with_author post (Some (placeholder (po_author_id post) n))) postsData"
  have "author p = Some (placeholder (po_author_id p) n)"
    using p unfolding res by (rule placeholder_authors)
  then show ?thesis
    using sent fail by auto
next
  fix postsData ids profilesData
  assume sent: "\<forall>ids'. Select_profiles_in ids' \<in> set (fst r) \<longrightarrow> ids' = ids"
    and ok: "select_profiles_in b ids = Success profilesData"
    and res: "snd r =
        map (\<lambda>post. with_author post
               (Some (or_else (Map_get (new_Map (map (\<lambda>p. (pf_id p, p)) profilesData))
                                (po_author_id post))
                        (placeholder (po_author_id post) n))))
          postsData"
  have "(po_author_id p \<notin> pf_id ` set profilesData \<longrightarrow>
            author p = Some (placeholder (po_author_id p) n)) \<and>
         (po_author_id p \<in> pf_id ` set profilesData \<longrightarrow>
            (\<exists>a \<in> set profilesData. pf_id a = po_author_id p \<and> author p = Some a))"
    using p unfolding res by (rule joined_authors)
  then show ?thesis
    using sent ok by auto
qed

section \<open>Listing posts\<close>

lemma getPosts_rows:
  "map post_row.truncate (snd (getPosts b)) = or_else (data (select_posts b)) []"
  by (simp add: getPosts_def Let_def new_Set_Nil_iff truncate_with_author o_def
        split: response.splits)

lemma getPosts_profiles_down:
  assumes "select_posts b = Success postsData"
    and "select_profiles_in b (new_Set (map po_author_id postsData)) = Failure e"
  shows "snd (getPosts b) =
     map (\<lambda>post. with_author post
            (Some (placeholder (po_author_id post) (lit ''Unknown Author'')))) postsData"
  using assms by (simp add: getPosts_def Let_def new_Set_Nil_iff)

text \<open>
  C3. Whatever the posts query and the profile batch lookup answer, \<open>getPosts\<close>
  returns as many posts as the posts query returned (none when it failed), and they are
  those rows, in that order: substituting a placeholder drops no row. When the batch
  lookup fails, every post is returned with the author
  \<open>{id: author_id, name: "Unknown Author"}\<close>.
\<close>

theorem getPosts_keeps_every_row:
  "length (snd (getPosts b)) = length (or_else (data (select_posts b)) []) \<and>
   map post_row.truncate (snd (getPosts b)) = or_else (data (select_posts b)) [] \<and>
   (\<forall>postsData e.
      select_posts b = Success postsData \<and>
      select_profiles_in b (new_Set (map po_author_id postsData)) = Failure e \<longrightarrow>
      snd (getPosts b) =
        map (\<lambda>post. with_author post
               (Some (placeholder (po_author_id post) (lit ''Unknown Author'')))) postsData)"
proof -
  have "length (snd (getPosts b)) = length (map post_row.truncate (snd (getPosts b)))"
    by simp
  then have "length (snd (getPosts b)) = length (or_else (data (select_posts b)) [])"
    by (simp only: getPosts_rows)
  then show ?thesis
    using getPosts_rows [of b] getPosts_profiles_down [of b] by blast
qed

theorem getPosts_keeps_every_row_witness:
  "length (snd (getPosts store_profiles_down)) = 2 \<and>
   map post_row.truncate (snd (getPosts store_profiles_down)) = [post_a, post_b] \<and>
   map author (snd (getPosts store_profiles_down)) =
     [Some (placeholder (lit ''u1'') (lit ''Unknown Author'')),
      Some (placeholder (lit ''u2'') (lit ''Unknown Author''))]"
proof -
  have posts: "select_posts store_profiles_down = Success [post_a, post_b]"
    by (simp add: store_profiles_down_def store_up_def)
  have profiles:
    "select_profiles_in store_profiles_down (new_Set (map po_author_id [post_a, post_b])) =
       Failure unavailable"
    by (simp add: store_profiles_down_def)
  show ?thesis
    using getPosts_keeps_every_row [of store_profiles_down] posts profiles
    by (simp add: author_with_author truncate_with_author post_a_def post_b_def)
qed

lemma getPosts_authors:
  assumes "p \<in> set (snd (getPosts b))"
  shows "author p \<noteq> None \<and>
    (\<forall>ids. Select_profiles_in ids \<in> set (fst (getPosts b)) \<longrightarrow>
       (\<forall>e. select_profiles_in b ids = Failure e \<longrightarrow>
          author p = Some (placeholder (po_author_id p) (lit ''Unknown Author''))) \<and>
       (\<forall>profilesData. select_profiles_in b ids = Success profilesData \<longrightarrow>
          (po_author_id p \<notin> pf_id ` set profilesData \<longrightarrow>
             author p = Some (placeholder (po_author_id p) (lit ''Unknown Author''))) \<and>
          (po_author_id p \<in> pf_id ` set profilesData \<longrightarrow>
             (\<exists>a \<in> set profilesData. pf_id a = po_author_id p \<and> author p = Some a))))"
proof (rule hydrated_authors [OF _ assms])
  show "snd (getPosts b) = [] \<and> (\<forall>ids. Select_profiles_in ids \<notin> set (fst (getPosts b))) \<or>
     (\<exists>postsData ids e.
        (\<forall>ids'. Select_profiles_in ids' \<in> set (fst (getPosts b)) \<longrightarrow> ids' = ids) \<and>
        select_profiles_in b ids = Failure e \<and>
        snd (getPosts b) = map (\<lambda>post. with_author post (Some (placeholder (po_author_id post) (lit ''Unknown Author'')))) postsData) \<or>
     (\<exists>postsData ids profilesData.
        (\<forall>ids'. Select_profiles_in ids' \<in> set (fst (getPosts b)) \<longrightarrow> ids' = ids) \<and>
        select_profiles_in b ids = Success profilesData \<and>
        snd (getPosts b) =
          map (\<lambda>post. with_author post
                 (Some (or_else (Map_get (new_Map (map (\<lambda>p. (pf_id p, p)) profilesData))
                                  (po_author_id post))
                          (placeholder (po_author_id post) (lit ''Unknown Author'')))))
            postsData)"
    by (auto simp: getPosts_def Let_def split: response.splits)
qed

section \<open>Searching posts\<close>

lemma searchPosts_authors:
  assumes "p \<in> set (snd (searchPosts b query))"
  shows "author p \<noteq> None \<and>
    (\<forall>ids. Select_profiles_in ids \<in> set (fst (searchPosts b query)) \<longrightarrow>
       (\<forall>e. select_profiles_in b ids = Failure e \<longrightarrow>
          author p = Some (placeholder (po_author_id p) (lit ''Unknown Author''))) \<and>
       (\<forall>profilesData. select_profiles_in b ids = Success profilesData \<longrightarrow>
          (po_author_id p \<notin> pf_id ` set profilesData \<longrightarrow>
             author p = Some (placeholder (po_author_id p) (lit ''Unknown Author''))) \<and>
          (po_author_id p \<in> pf_id ` set profilesData \<longrightarrow>
             (\<exists>a \<in> set profilesData. pf_id a = po_author_id p \<and> author p = Some a))))"
proof (rule hydrated_authors [OF _ assms])
  show "snd (searchPosts b query) = [] \<and> (\<forall>ids. Select_profiles_in ids \<notin> set (fst (searchPosts b query))) \<or>
     (\<exists>postsData ids e.
        (\<forall>ids'. Select_profiles_in ids' \<in> set (fst (searchPosts b query)) \<longrightarrow> ids' = ids) \<and>
        select_profiles_in b ids = Failure e \<and>
        snd (searchPosts b query) = map (\<lambda>post. with_author post (Some (placeholder (po_author_id post) (lit ''Unknown Author'')))) postsData) \<or>
     (\<exists>postsData ids profilesData.
        (\<forall>ids'. Select_profiles_in ids' \<in> set (fst (searchPosts b query)) \<longrightarrow> ids' = ids) \<and>
        select_profiles_in b ids = Success profilesData \<and>
        snd (searchPosts b query) =
          map (\<lambda>post. with_author post
                 (Some (or_else (Map_get (new_Map (map (\<lambda>p. (pf_id p, p)) profilesData))
                                  (po_author_id post))
                          (placeholder (po_author_id post) (lit ''Unknown Author'')))))
            postsData)"
    by (auto simp: searchPosts_def Let_def split: response.splits)
qed

lemma searchPosts_rows:
  assumes "query \<noteq> []"
  shows "map post_row.truncate (snd (searchPosts b query)) =
     Map_values (new_Map (map (\<lambda>post. (po_id post, post))
       (or_else (data (text_search b Title (join (lit '' | '') (split_ws (trim query))))) [] @
        or_else (data (text_search b Content (join (lit '' | '') (split_ws (trim query))))) [])))"
  using assms
  by (simp add: searchPosts_def Let_def truncate_with_author o_def split: response.splits)

lemma searchPosts_all_down:
  assumes "\<And>col q. \<exists>e. text_search b col q = Failure e"
  shows "snd (searchPosts b query) = []"
proof (cases "query = []")
  case True
  then show ?thesis by (simp add: searchPosts_def)
next
  case False
  let ?fq = "join (lit '' | '') (split_ws (trim query))"
  obtain e1 where t: "text_search b Title ?fq = Failure e1" using assms by blast
  obtain e2 where c: "text_search b Content ?fq = Failure e2" using assms by blast
  show ?thesis
    using False t c by (simp add: searchPosts_def Let_def new_Map_def Map_values_def)
qed

text \<open>
  C2. \<open>searchPosts\<close> of the empty string returns the empty list and sends no request.
  A string of three spaces is not the empty string: it passes the guard, \<open>trim\<close>
  leaves the empty string, \<open>split\<close> gives the one empty piece, and the title search
  and the content search are both sent with the empty formatted query.
\<close>

theorem searchPosts_blank_query:
  "searchPosts b [] = ([], []) \<and>
   take 2 (fst (searchPosts b (lit ''   ''))) = [Text_search Title [], Text_search Content []]"
proof -
  have fq: "join (lit '' | '') (split_ws (trim (lit ''   ''))) = []"
    by (simp add: lit_def trim_def is_ws_def split_ws.simps)
  have ne: "lit ''   '' \<noteq> []"
    by (simp add: lit_def)
  show ?thesis
    by (simp add: searchPosts_def [of b "lit ''   ''"] searchPosts_def [of b "[]"] fq ne Let_def
          split: response.splits)
qed

section \<open>One post with its comments\<close>

lemma getPostById_found:
  assumes "select_post_by_id b i = Success postData"
  shows "snd (getPostById b i) =
     Some (with_author_comments postData
       (Some (or_else (data (select_profile_by_id b (po_author_id postData)))
                (placeholder (po_author_id postData) (lit ''Unknown''))))
       (case comments_of_post b i True of
          Failure e \<Rightarrow> []
        | Success commentsData \<Rightarrow>
            map (\<lambda>comment. with_user comment
                   (Some (or_else
                      (Map_get
                         (case select_profiles_in b (new_Set (map co_user_id commentsData)) of
                            Failure e \<Rightarrow> []
                          | Success usersData \<Rightarrow> new_Map (map (\<lambda>u. (pf_id u, u)) usersData))
                         (co_user_id comment))
                      (placeholder (co_user_id comment) (lit ''Unknown'')))))
              commentsData))"
  using assms
  by (simp add: getPostById_def Let_def new_Set_Nil_iff split: response.splits)

lemma getPostById_sent:
  assumes "Select_profiles_in ids \<in> set (fst (getPostById b i))"
  shows "\<exists>commentsData. comments_of_post b i True = Success commentsData \<and>
           ids = new_Set (map co_user_id commentsData)"
  using assms
  by (auto simp: getPostById_def Let_def split: response.splits if_splits)

text \<open>
  C6. \<open>getPostById\<close> returns \<open>null\<close> whenever the query for the post fails,
  whatever the error is: a missing row (which \<open>.single()\<close> reports as an error) and
  a failed request give the same result and the same single request, so the caller
  cannot tell them apart. It returns \<open>null\<close> in no other case, and it has no
  \<open>throw\<close>: its result is always a value.
\<close>

theorem getPostById_null:
  "(\<forall>e. select_post_by_id b i = Failure e \<longrightarrow> getPostById b i = ([Select_post_by_id i], None)) \<and>
   (snd (getPostById b i) = None \<longleftrightarrow> (\<exists>e. select_post_by_id b i = Failure e))"
  by (auto simp: getPostById_def Let_def split: response.splits prod.splits)

theorem getPostById_null_witness:
  "getPostById store_up (lit ''p9'') = ([Select_post_by_id (lit ''p9'')], None) \<and>
   getPostById store_down (lit ''p9'') = ([Select_post_by_id (lit ''p9'')], None)"
proof -
  have missing: "select_post_by_id store_up (lit ''p9'') = Failure not_found"
    by (simp add: store_up_def lit_def)
  have broken: "select_post_by_id store_down (lit ''p9'') = Failure unavailable"
    by (simp add: store_down_def)
  show ?thesis
    using getPostById_null [of store_up "lit ''p9''"] getPostById_null [of store_down "lit ''p9''"]
      missing broken
    by simp
qed

section \<open>The posts of one author\<close>

text \<open>
  C5. When the profile of the author cannot be fetched, \<open>getPostsByAuthor\<close> returns
  the empty list after that one request: it does not go on to return the posts under a
  placeholder author. When the profile is fetched, it is the author of every post
  returned.
\<close>

theorem getPostsByAuthor_profile_first:
  "(\<forall>e. select_profile_by_id b authorId = Failure e \<longrightarrow>
        getPostsByAuthor b authorId = ([Select_profile_by_id authorId], [])) \<and>
   (\<forall>authorData. select_profile_by_id b authorId = Success authorData \<longrightarrow>
        snd (getPostsByAuthor b authorId) =
          map (\<lambda>post. with_author post (Some authorData))
            (or_else (data (select_posts_by_author b authorId)) []) \<and>
        (\<forall>p \<in> set (snd (getPostsByAuthor b authorId)). author p = Some authorData))"
  by (auto simp: getPostsByAuthor_def author_with_author split: response.splits)

theorem getPostsByAuthor_profile_first_witness:
  "getPostsByAuthor store_profiles_down (lit ''u1'') = ([Select_profile_by_id (lit ''u1'')], []) \<and>
   snd (getPostsByAuthor store_up (lit ''u1'')) = [with_author post_a (Some alice)] \<and>
   author (with_author post_a (Some alice)) = Some alice"
proof -
  have down: "select_profile_by_id store_profiles_down (lit ''u1'') = Failure unavailable"
    by (simp add: store_profiles_down_def)
  have up: "select_profile_by_id store_up (lit ''u1'') = Success alice"
    by (simp add: store_up_def)
  have posts: "select_posts_by_author store_up (lit ''u1'') = Success [post_a]"
    by (simp add: store_up_def post_a_def post_b_def lit_def)
  show ?thesis
    using getPostsByAuthor_profile_first [of store_profiles_down "lit ''u1''"]
      getPostsByAuthor_profile_first [of store_up "lit ''u1''"] down up posts
    by simp
qed

section \<open>Creating a post, adding a comment\<close>

text \<open>
  C7. \<open>createPost\<close> throws exactly when its insert fails, and \<open>addComment\<close>
  exactly when its insert fails; what is thrown is a fixed error that does not carry the
  cause. On such a failure the failed insert is the only request the operation has
  sent, so nothing else was written or read. The other operations have no \<open>throw\<close>:
  when their main query fails they return the empty list, or \<open>null\<close>.
\<close>

theorem write_failures_propagate:
  "(isl (snd (createPost b postData)) \<longleftrightarrow> (\<exists>e. insert_post b postData = Failure e)) \<and>
   (\<forall>e. insert_post b postData = Failure e \<longrightarrow>
        createPost b postData =
          ([Insert_post postData], Inl (Error (lit ''Could not create post.'')))) \<and>
   (isl (snd (addComment b commentData)) \<longleftrightarrow>
      (\<exists>e. insert_comment b (cd_postId commentData) (cd_user_id commentData)
             (cd_text commentData) = Failure e)) \<and>
   (\<forall>e. insert_comment b (cd_postId commentData) (cd_user_id commentData)
          (cd_text commentData) = Failure e \<longrightarrow>
        addComment b commentData =
          ([Insert_comment (cd_postId commentData) (cd_user_id commentData) (cd_text commentData)],
           Inl (Error (lit ''Could not add comment.'')))) \<and>
   (\<forall>e. select_posts b = Failure e \<longrightarrow> snd (getPosts b) = []) \<and>
   (\<forall>e. select_post_by_id b i = Failure e \<longrightarrow> snd (getPostById b i) = None) \<and>
   (\<forall>e. select_profile_by_id b authorId = Failure e \<longrightarrow> snd (getPostsByAuthor b authorId) = []) \<and>
   (\<forall>e. select_posts_by_author b authorId = Failure e \<longrightarrow> snd (getPostsByAuthor b authorId) = []) \<and>
   ((\<forall>col q. \<exists>e. text_search b col q = Failure e) \<longrightarrow> snd (searchPosts b query) = [])"
proof -
  have create: "isl (snd (createPost b postData)) \<longleftrightarrow> (\<exists>e. insert_post b postData = Failure e)"
    by (auto simp: createPost_def split: response.splits)
  have create': "createPost b postData =
      ([Insert_post postData], Inl (Error (lit ''Could not create post.'')))"
    if "insert_post b postData = Failure e" for e
    using that by (simp add: createPost_def)
  have add: "isl (snd (addComment b commentData)) \<longleftrightarrow>
      (\<exists>e. insert_comment b (cd_postId commentData) (cd_user_id commentData)
             (cd_text commentData) = Failure e)"
    by (auto simp: addComment_def split: response.splits)
  have add': "addComment b commentData =
      ([Insert_comment (cd_postId commentData) (cd_user_id commentData) (cd_text commentData)],
       Inl (Error (lit ''Could not add comment.'')))"
    if "insert_comment b (cd_postId commentData) (cd_user_id commentData)
          (cd_text commentData) = Failure e" for e
    using that by (simp add: addComment_def)
  have posts: "snd (getPosts b) = []" if "select_posts b = Failure e" for e
    using that by (simp add: getPosts_def)
  have byid: "snd (getPostById b i) = None" if "select_post_by_id b i = Failure e" for e
    using that by (simp add: getPostById_def)
  have byauthor: "snd (getPostsByAuthor b authorId) = []"
    if "select_profile_by_id b authorId = Failure e" for e
    using that by (simp add: getPostsByAuthor_def)
  have byauthor': "snd (getPostsByAuthor b authorId) = []"
    if "select_posts_by_author b authorId = Failure e" for e
    using that by (simp add: getPostsByAuthor_def split: response.splits)
  have search: "snd (searchPosts b query) = []"
    if "\<forall>col q. \<exists>e. text_search b col q = Failure e"
    using that by (intro searchPosts_all_down) blast
  show ?thesis
    using create create' add add' posts byid byauthor byauthor' search by blast
qed

theorem write_failures_propagate_witness:
  "createPost store_down new_post_1 =
     ([Insert_post new_post_1], Inl (Error (lit ''Could not create post.''))) \<and>
   addComment store_down comment_data_1 =
     ([Insert_comment (lit ''p1'') (lit ''u1'') (lit ''third'')],
      Inl (Error (lit ''Could not add comment.''))) \<and>
   \<not> isl (snd (createPost store_profiles_down new_post_1)) \<and>
   \<not> isl (snd (addComment store_up comment_data_1)) \<and>
   snd (getPosts store_down) = [] \<and>
   snd (getPostById store_down (lit ''p1'')) = None \<and>
   snd (getPostsByAuthor store_down (lit ''u1'')) = [] \<and>
   snd (searchPosts store_down (lit ''Hello'')) = []"
proof -
  have down:
    "insert_post store_down new_post_1 = Failure unavailable"
    "insert_comment store_down (cd_postId comment_data_1) (cd_user_id comment_data_1)
       (cd_text comment_data_1) = Failure unavailable"
    "select_posts store_down = Failure unavailable"
    "select_post_by_id store_down (lit ''p1'') = Failure unavailable"
    "select_profile_by_id store_down (lit ''u1'') = Failure unavailable"
    "\<forall>col q. \<exists>e. text_search store_down col q = Failure e"
    by (simp_all add: store_down_def)
  have up:
    "\<nexists>e. insert_post store_profiles_down new_post_1 = Failure e"
    "\<nexists>e. insert_comment store_up (cd_postId comment_data_1) (cd_user_id comment_data_1)
       (cd_text comment_data_1) = Failure e"
    by (simp_all add: store_profiles_down_def store_up_def)
  show ?thesis
    using write_failures_propagate
        [of store_down new_post_1 comment_data_1 "lit ''p1''" "lit ''u1''" "lit ''Hello''"]
      write_failures_propagate [of store_profiles_down new_post_1 comment_data_1]
      write_failures_propagate [of store_up new_post_1 comment_data_1]
      down up
    by (simp add: comment_data_1_def)
qed

section \<open>Summaries\<close>

text \<open>
  C9. \<open>generateSummary\<close> returns a string for every content: whatever the body of
  its \<open>try\<close> block throws, the result is the fixed error message. In particular,
  when the call to the service throws, or its response has no text or the empty text,
  the result is that message, after the one call.
\<close>

theorem generateSummary_never_throws:
  "(\<forall>calls e. generateSummary_try ai content = (calls, Inl e) \<longrightarrow>
        generateSummary ai content = (calls, error_message)) \<and>
   (new_GoogleGenAI ai = None \<and> 50 \<le> length content \<and>
      ((\<exists>e. generateContent ai (prompt_of content) = Inl e) \<or>
       generateContent ai (prompt_of content) = Inr None \<or>
       generateContent ai (prompt_of content) = Inr (Some [])) \<longrightarrow>
    generateSummary ai content = ([prompt_of content], error_message))"
  by (auto simp: generateSummary_def generateSummary_try_def)

theorem generateSummary_never_throws_witness:
  "generateSummary ai_down long_content = ([prompt_of long_content], error_message) \<and>
   generateSummary ai_silent long_content = ([prompt_of long_content], error_message)"
proof -
  have len: "50 \<le> length long_content"
    by (simp add: long_content_def lit_def)
  have down: "new_GoogleGenAI ai_down = None"
    "generateContent ai_down (prompt_of long_content) = Inl (Error (lit ''503''))"
    by (simp_all add: ai_down_def)
  have silent: "new_GoogleGenAI ai_silent = None"
    "generateContent ai_silent (prompt_of long_content) = Inr None"
    by (simp_all add: ai_silent_def)
  show ?thesis
    using generateSummary_never_throws [of ai_down long_content]
      generateSummary_never_throws [of ai_silent long_content] len down silent
    by simp
qed

text \<open>
  C10, as stated, fails when the client cannot be built: the constructor runs first in
  the \<open>try\<close> block, so a short content then gets the error message, not the
  too-short message.
\<close>

theorem generateSummary_short_counterexample:
  "lit ''Too short'' \<noteq> [] \<and> length (lit ''Too short'') < 50 \<and>
   generateSummary ai_no_key (lit ''Too short'') = ([], error_message) \<and>
   error_message \<noteq> too_short_message"
  by (simp add: generateSummary_def generateSummary_try_def ai_no_key_def lit_def
        error_message_def too_short_message_def)

text \<open>
  C10, amended. When the client is built, a content that is not empty and has fewer than
  50 code units gets the too-short message, and the empty content gets the error
  message; when the client cannot be built, every content gets the error message. In
  all three cases no call is made to the service.
\<close>

theorem generateSummary_short:
  "(new_GoogleGenAI ai = None \<and> content \<noteq> [] \<and> length content < 50 \<longrightarrow>
      generateSummary ai content = ([], too_short_message)) \<and>
   (new_GoogleGenAI ai = None \<longrightarrow> generateSummary ai [] = ([], error_message)) \<and>
   (\<forall>e. new_GoogleGenAI ai = Some e \<longrightarrow> generateSummary ai content = ([], error_message))"
  by (auto simp: generateSummary_def generateSummary_try_def)

theorem generateSummary_short_witness:
  "generateSummary ai_up (lit ''Too short'') = ([], too_short_message) \<and>
   generateSummary ai_up [] = ([], error_message) \<and>
   generateSummary ai_no_key (lit ''Too short'') = ([], error_message)"
proof -
  have up: "new_GoogleGenAI ai_up = None"
    by (simp add: ai_up_def)
  have no_key: "new_GoogleGenAI ai_no_key =
      Some (Error (lit ''An API Key must be set when running in a browser''))"
    by (simp add: ai_no_key_def)
  have short: "lit ''Too short'' \<noteq> []" "length (lit ''Too short'') < 50"
    by (simp_all add: lit_def)
  show ?thesis
    using generateSummary_short [of ai_up "lit ''Too short''"]
      generateSummary_short [of ai_no_key "lit ''Too short''"] up no_key short
    by simp
qed

section \<open>Merging the two searches\<close>

lemma po_id_truncate: "po_id (post_row.truncate p) = po_id p"
  by (simp add: post_row.truncate_def)

lemma filter_by_row_id:
  "map post_row.truncate (filter (\<lambda>p. po_id p = k) ps) =
     filter (\<lambda>r. po_id r = k) (map post_row.truncate ps)"
  by (induction ps) (simp_all add: po_id_truncate)

lemma map_po_id_truncate: "map po_id (map post_row.truncate ps) = map po_id ps"
  by (simp add: po_id_truncate)

lemma filter_id_Nil_iff: "filter (\<lambda>r. po_id r = k) xs = [] \<longleftrightarrow> k \<notin> po_id ` set xs"
  by (auto simp: filter_empty_conv)

lemma only_copy:
  assumes "distinct (map f xs)" and "y \<in> set xs"
  shows "filter (\<lambda>r. f r = f y) xs = [y]"
  using assms
proof (induction xs)
  case Nil
  then show ?case by simp
next
  case (Cons x xs)
  show ?case
  proof (cases "x = y")
    case True
    have "f y \<notin> f ` set xs"
      using Cons.prems(1) True by simp
    then have "filter (\<lambda>r. f r = f y) xs = []"
      by (simp add: filter_empty_conv image_iff) metis
    with True show ?thesis by simp
  next
    case False
    then have "y \<in> set xs" using Cons.prems(2) by simp
    moreover have "f x \<noteq> f y" using Cons.prems(1) \<open>y \<in> set xs\<close> by (simp add: image_iff)
    ultimately show ?thesis using Cons by simp
  qed
qed

text \<open>
  C4. \<open>searchPosts\<close> merges the rows of the title search and of the content search
  by post id: no id occurs twice in the result, the ids of the result are those of the
  two searches together, and the one copy returned for an id that the content search
  matched is the copy of the content search, the last merged (whether or not the title
  search matched it too); an id matched by the title search alone keeps its title
  copy. Where the content search has each id once, that copy is the matched row itself.
\<close>

theorem searchPosts_merges_by_id:
  assumes q: "query \<noteq> []"
    and T: "T = or_else (data (text_search b Title (join (lit '' | '') (split_ws (trim query))))) []"
    and C: "C = or_else (data (text_search b Content (join (lit '' | '') (split_ws (trim query))))) []"
  shows "distinct (map po_id (snd (searchPosts b query))) \<and>
    set (map po_id (snd (searchPosts b query))) = po_id ` set T \<union> po_id ` set C \<and>
    (\<forall>y \<in> set C.
       map post_row.truncate (filter (\<lambda>p. po_id p = po_id y) (snd (searchPosts b query))) =
         [last (filter (\<lambda>r. po_id r = po_id y) C)]) \<and>
    (\<forall>x \<in> set T. po_id x \<notin> po_id ` set C \<longrightarrow>
       map post_row.truncate (filter (\<lambda>p. po_id p = po_id x) (snd (searchPosts b query))) =
         [last (filter (\<lambda>r. po_id r = po_id x) T)]) \<and>
    (distinct (map po_id C) \<longrightarrow>
       (\<forall>y \<in> set C.
          map post_row.truncate (filter (\<lambda>p. po_id p = po_id y) (snd (searchPosts b query))) = [y]))"
proof -
  let ?res = "snd (searchPosts b query)"
  let ?M = "Map_values (new_Map (map (\<lambda>post. (po_id post, post)) (T @ C)))"
  have rows: "map post_row.truncate ?res = ?M"
    using searchPosts_rows [OF q, of b] by (simp add: T C)
  have ids: "map po_id ?res = map fst (new_Map (map (\<lambda>post. (po_id post, post)) (T @ C)))"
    using map_po_id_truncate [of ?res] by (simp only: rows map_f_merged)
  have d: "distinct (map po_id ?res)"
    unfolding ids by (rule distinct_new_Map)
  have "set (map po_id ?res) = fst ` set (new_Map (map (\<lambda>post. (po_id post, post)) (T @ C)))"
    unfolding ids by simp
  also have "\<dots> = fst ` set (map (\<lambda>post. (po_id post, post)) (T @ C))"
    by (rule keys_new_Map)
  also have "\<dots> = po_id ` set T \<union> po_id ` set C"
    by (simp add: image_Un image_image)
  finally have s: "set (map po_id ?res) = po_id ` set T \<union> po_id ` set C" .
  have copy: "map post_row.truncate (filter (\<lambda>p. po_id p = k) ?res) =
      (if filter (\<lambda>r. po_id r = k) (T @ C) = [] then []
       else [last (filter (\<lambda>r. po_id r = k) (T @ C))])" for k
    unfolding filter_by_row_id rows by (rule merged_copy)
  have inC: "map post_row.truncate (filter (\<lambda>p. po_id p = po_id y) ?res) =
      [last (filter (\<lambda>r. po_id r = po_id y) C)]" if "y \<in> set C" for y
  proof -
    have "filter (\<lambda>r. po_id r = po_id y) C \<noteq> []"
      using that by (simp add: filter_id_Nil_iff)
    then show ?thesis
      unfolding copy by simp
  qed
  have inT: "map post_row.truncate (filter (\<lambda>p. po_id p = po_id x) ?res) =
      [last (filter (\<lambda>r. po_id r = po_id x) T)]"
    if "x \<in> set T" and "po_id x \<notin> po_id ` set C" for x
  proof -
    have "filter (\<lambda>r. po_id r = po_id x) C = []"
      using that(2) by (simp add: filter_id_Nil_iff)
    moreover have "filter (\<lambda>r. po_id r = po_id x) T \<noteq> []"
      using that(1) by (simp add: filter_id_Nil_iff)
    ultimately show ?thesis
      unfolding copy by simp
  qed
  have dC: "map post_row.truncate (filter (\<lambda>p. po_id p = po_id y) ?res) = [y]"
    if "distinct (map po_id C)" and "y \<in> set C" for y
    using inC [OF that(2)] only_copy [OF that] by simp
  show ?thesis
    using d s inC inT dC by blast
qed

theorem searchPosts_merges_by_id_witness:
  "distinct (map po_id (snd (searchPosts store_up (lit ''Hello'')))) \<and>
   set (map po_id (snd (searchPosts store_up (lit ''Hello'')))) = {lit ''p1'', lit ''p2''} \<and>
   map post_row.truncate
     (filter (\<lambda>p. po_id p = lit ''p1'') (snd (searchPosts store_up (lit ''Hello'')))) = [post_a'] \<and>
   post_a' \<noteq> post_a"
proof -
  have q: "lit ''Hello'' \<noteq> []"
    by (simp add: lit_def)
  have T: "[post_a] =
      or_else (data (text_search store_up Title (join (lit '' | '') (split_ws (trim (lit ''Hello'')))))) []"
    by (simp add: store_up_def)
  have C: "[post_a', post_b] =
      or_else (data (text_search store_up Content (join (lit '' | '') (split_ws (trim (lit ''Hello'')))))) []"
    by (simp add: store_up_def)
  have ids: "po_id post_a = lit ''p1''" "po_id post_a' = lit ''p1''" "po_id post_b = lit ''p2''"
    by (simp_all add: post_a_def post_a'_def post_b_def)
  have ne: "lit ''p1'' \<noteq> lit ''p2''"
    by (simp add: lit_def)
  have differ: "post_a' \<noteq> post_a"
    by (simp add: post_a'_def post_a_def lit_def)
  show ?thesis
    using searchPosts_merges_by_id [OF q T C] ids ne differ
    by (simp add: insert_commute)
qed

section \<open>The example stores, evaluated\<close>

lemma ids_differ:
  "lit ''u1'' \<noteq> lit ''u2''" "lit ''u1'' \<noteq> lit ''u3''" "lit ''p1'' \<noteq> lit ''p2''"
  by (simp_all add: lit_def)

lemma getPosts_store_up:
  "getPosts store_up =
     ([Select_posts, Select_profiles_in [lit ''u1'', lit ''u2'']],
      [with_author post_a (Some alice),
       with_author post_b (Some (placeholder (lit ''u2'') (lit ''Unknown Author'')))])"
  using ids_differ
  by (simp add: getPosts_def store_up_def Let_def new_Set_def new_Map_def post_a_def post_b_def
        alice_def)

lemma getPosts_store_profiles_down:
  "getPosts store_profiles_down =
     ([Select_posts, Select_profiles_in [lit ''u1'', lit ''u2'']],
      [with_author post_a (Some (placeholder (lit ''u1'') (lit ''Unknown Author''))),
       with_author post_b (Some (placeholder (lit ''u2'') (lit ''Unknown Author'')))])"
  using ids_differ
  by (simp add: getPosts_def store_profiles_down_def store_up_def Let_def new_Set_def
        post_a_def post_b_def)

lemma comments_of_post_store_up:
  "comments_of_post store_up (lit ''p1'') True = Success [comment_1, comment_2]"
  by (simp add: comments_of_post_def order_by_created_at_def store_up_def comment_1_def
        comment_2_def lit_def)

lemma descending_request_rows:
  "order_by_created_at False [comment_1, comment_2] = [comment_2, comment_1]"
  by (simp add: order_by_created_at_def comment_1_def comment_2_def lit_def)

lemma getPostById_store_up:
  "getPostById store_up (lit ''p1'') =
     ([Select_post_by_id (lit ''p1''), Select_profile_by_id (lit ''u1''),
       Select_comments_of_post (lit ''p1'') True, Select_profiles_in [lit ''u1'', lit ''u3'']],
      Some (with_author_comments post_a (Some alice)
        [with_user comment_1 (Some alice),
         with_user comment_2 (Some (placeholder (lit ''u3'') (lit ''Unknown'')))]))"
  using ids_differ
  by (simp add: getPostById_def store_up_def Let_def new_Set_def new_Map_def post_a_def
        comment_1_def comment_2_def alice_def comments_of_post_def order_by_created_at_def
        lit_def)

lemma createPost_store_profiles_down:
  "createPost store_profiles_down new_post_1 =
     ([Insert_post new_post_1, Select_full_profile_by_id (lit ''u1'')],
      Inr (with_author
        \<lparr>po_id = lit ''p3'', po_title = lit ''New'', po_content = lit ''Body'',
         po_summary = lit ''Sum'', po_author_id = lit ''u1'', po_created_at = lit ''2024-03-01''\<rparr>
        (Some (placeholder (lit ''u1'') (lit ''Unknown'')))))"
  by (simp add: createPost_def store_profiles_down_def store_up_def new_post_1_def)

section \<open>The order of comments\<close>

lemma comments_of_post_rows:
  "or_else (data (comments_of_post b i True)) [] =
     sort_key co_created_at (or_else (data (select_comments_of_post b i)) [])"
  by (simp add: comments_of_post_def order_by_created_at_def split: response.splits)

lemma getPostById_comments:
  assumes "select_post_by_id b i = Success postData"
  shows "\<exists>p a u. snd (getPostById b i) = Some p \<and>
     p = with_author_comments postData (Some a)
           (map (\<lambda>comment. with_user comment (Some (u comment)))
              (or_else (data (comments_of_post b i True)) []))"
proof (cases "comments_of_post b i True")
  case (Failure e)
  then show ?thesis
    using getPostById_found [OF assms] by auto
next
  case (Success commentsData)
  then show ?thesis
    using getPostById_found [OF assms] by auto
qed

text \<open>
  C8. For a post that exists, \<open>getPostById\<close> returns the post with a comments list in
  non-decreasing \<open>created_at\<close> order: the request asks for \<open>created_at\<close> ascending,
  and the rows are attached in the order of the answer. The list has every matching row
  of the store, and no other. When the comments query fails, the post is returned with
  the empty comments list.
\<close>

theorem getPostById_comments_in_order:
  "\<forall>postData. select_post_by_id b i = Success postData \<longrightarrow>
     (\<exists>p cs. snd (getPostById b i) = Some p \<and> comments p = Some cs \<and>
        sorted_wrt (\<lambda>x y. co_created_at x \<le> co_created_at y) cs \<and>
        map comment_row.truncate cs = or_else (data (comments_of_post b i True)) [] \<and>
        set (map comment_row.truncate cs) =
          set (or_else (data (select_comments_of_post b i)) []) \<and>
        length cs = length (or_else (data (select_comments_of_post b i)) []) \<and>
        ((\<exists>e. select_comments_of_post b i = Failure e) \<longrightarrow> cs = []))"
proof (intro allI impI)
  fix postData
  assume found: "select_post_by_id b i = Success postData"
  let ?table = "or_else (data (select_comments_of_post b i)) []"
  let ?rows = "or_else (data (comments_of_post b i True)) []"
  have answer: "?rows = sort_key co_created_at ?table"
    by (rule comments_of_post_rows)
  obtain p a u where p: "snd (getPostById b i) = Some p"
    and shape: "p = with_author_comments postData (Some a)
           (map (\<lambda>comment. with_user comment (Some (u comment))) ?rows)"
    using getPostById_comments [OF found] by blast
  let ?cs = "map (\<lambda>comment. with_user comment (Some (u comment))) ?rows"
  have cs: "comments p = Some ?cs"
    by (simp add: shape comments_with_author_comments)
  have rows: "map comment_row.truncate ?cs = ?rows"
    by (simp add: truncate_with_user o_def)
  have "sorted (map co_created_at (sort_key co_created_at ?table))"
    by (rule sorted_sort_key)
  then have "sorted_wrt (\<lambda>x y. co_created_at x \<le> co_created_at y) ?rows"
    by (simp only: answer sorted_map)
  then have order: "sorted_wrt (\<lambda>x y. co_created_at x \<le> co_created_at y) ?cs"
    by (simp add: sorted_wrt_map co_created_at_with_user)
  have "set ?rows = set ?table"
    by (simp only: answer set_sort)
  then have all: "set (map comment_row.truncate ?cs) = set ?table"
    by (simp only: rows)
  have len: "length ?cs = length ?table"
    by (simp add: answer)
  have none: "?cs = []" if "\<exists>e. select_comments_of_post b i = Failure e"
    using that by (auto simp: comments_of_post_def)
  show "\<exists>p cs. snd (getPostById b i) = Some p \<and> comments p = Some cs \<and>
        sorted_wrt (\<lambda>x y. co_created_at x \<le> co_created_at y) cs \<and>
        map comment_row.truncate cs = ?rows \<and>
        set (map comment_row.truncate cs) = set ?table \<and>
        length cs = length ?table \<and>
        ((\<exists>e. select_comments_of_post b i = Failure e) \<longrightarrow> cs = [])"
    using p cs order rows all len none by blast
qed

theorem getPostById_comments_in_order_witness:
  "select_comments_of_post store_up (lit ''p1'') = Success [comment_2, comment_1] \<and>
   (\<exists>p cs. snd (getPostById store_up (lit ''p1'')) = Some p \<and> comments p = Some cs \<and>
      map comment_row.truncate cs = [comment_1, comment_2] \<and>
      sorted_wrt (\<lambda>x y. co_created_at x \<le> co_created_at y) cs) \<and>
   co_created_at comment_1 \<le> co_created_at comment_2 \<and>
   \<not> co_created_at comment_2 \<le> co_created_at comment_1 \<and>
   (\<exists>p. snd (getPostById store_comments_down (lit ''p1'')) = Some p \<and> comments p = Some [])"
proof -
  have post: "select_post_by_id store_up (lit ''p1'') = Success post_a"
    "select_post_by_id store_comments_down (lit ''p1'') = Success post_a"
    by (simp_all add: store_comments_down_def store_up_def)
  have table: "select_comments_of_post store_up (lit ''p1'') = Success [comment_2, comment_1]"
    by (simp add: store_up_def)
  have rows: "or_else (data (comments_of_post store_up (lit ''p1'') True)) [] =
      [comment_1, comment_2]"
    by (simp add: comments_of_post_store_up)
  have down: "select_comments_of_post store_comments_down (lit ''p1'') = Failure unavailable"
    by (simp add: store_comments_down_def)
  have order: "co_created_at comment_1 \<le> co_created_at comment_2"
    "\<not> co_created_at comment_2 \<le> co_created_at comment_1"
    by (simp_all add: comment_1_def comment_2_def lit_def)
  show ?thesis
    using getPostById_comments_in_order [of store_up "lit ''p1''"]
      getPostById_comments_in_order [of store_comments_down "lit ''p1''"]
      post table rows down order
    by auto
qed

section \<open>Authors and users of the returned objects\<close>

lemma getPostById_failed:
  "select_post_by_id b i = Failure e \<Longrightarrow> snd (getPostById b i) = None"
  by (simp add: getPostById_def)

lemma getPostById_author:
  assumes "snd (getPostById b i) = Some p"
  shows "author p \<noteq> None \<and>
       (\<forall>e. select_profile_by_id b (po_author_id p) = Failure e \<longrightarrow>
          author p = Some (placeholder (po_author_id p) (lit ''Unknown''))) \<and>
       (\<forall>a. select_profile_by_id b (po_author_id p) = Success a \<longrightarrow> author p = Some a)"
proof (cases "select_post_by_id b i")
  case (Failure e)
  then show ?thesis
    using assms getPostById_failed [of b i e] by simp
next
  case (Success postData)
  have "p = with_author_comments postData
       (Some (or_else (data (select_profile_by_id b (po_author_id postData)))
                (placeholder (po_author_id postData) (lit ''Unknown''))))
       (case comments_of_post b i True of
          Failure e \<Rightarrow> []
        | Success commentsData \<Rightarrow>
            map (\<lambda>comment. with_user comment
                   (Some (or_else
                      (Map_get
                         (case select_profiles_in b (new_Set (map co_user_id commentsData)) of
                            Failure e \<Rightarrow> []
                          | Success usersData \<Rightarrow> new_Map (map (\<lambda>u. (pf_id u, u)) usersData))
                         (co_user_id comment))
                      (placeholder (co_user_id comment) (lit ''Unknown'')))))
              commentsData)"
    using assms getPostById_found [OF Success] by simp
  then have a: "author p = Some (or_else (data (select_profile_by_id b (po_author_id postData)))
                (placeholder (po_author_id postData) (lit ''Unknown'')))"
    and k: "po_author_id p = po_author_id postData"
    by (simp_all add: author_with_author_comments po_author_id_with_author_comments)
  show ?thesis
    by (auto simp: a k)
qed

lemma getPostById_users:
  assumes p: "snd (getPostById b i) = Some p" and cs: "comments p = Some cs" and c: "c \<in> set cs"
  shows "user c \<noteq> None \<and>
       (\<forall>ids. Select_profiles_in ids \<in> set (fst (getPostById b i)) \<longrightarrow>
          (\<forall>e. select_profiles_in b ids = Failure e \<longrightarrow>
             user c = Some (placeholder (co_user_id c) (lit ''Unknown''))) \<and>
          (\<forall>usersData. select_profiles_in b ids = Success usersData \<longrightarrow>
             (co_user_id c \<notin> pf_id ` set usersData \<longrightarrow>
                user c = Some (placeholder (co_user_id c) (lit ''Unknown''))) \<and>
             (co_user_id c \<in> pf_id ` set usersData \<longrightarrow>
                (\<exists>u \<in> set usersData. pf_id u = co_user_id c \<and> user c = Some u))))"
proof (cases "select_post_by_id b i")
  case (Failure e)
  then show ?thesis
    using p getPostById_failed [of b i e] by simp
next
  case found: (Success postData)
  show ?thesis
  proof (cases "comments_of_post b i True")
    case (Failure e)
    then have "comments p = Some []"
      using p getPostById_found [OF found] by (auto simp: comments_with_author_comments)
    with cs c show ?thesis by simp
  next
    case (Success commentsData)
    let ?ids = "new_Set (map co_user_id commentsData)"
    let ?m = "case select_profiles_in b ?ids of
                Failure e \<Rightarrow> []
              | Success usersData \<Rightarrow> new_Map (map (\<lambda>u. (pf_id u, u)) usersData)"
    have "comments p = Some (map (\<lambda>comment. with_user comment
                   (Some (or_else (Map_get ?m (co_user_id comment))
                      (placeholder (co_user_id comment) (lit ''Unknown''))))) commentsData)"
      using p getPostById_found [OF found] Success by (auto simp: comments_with_author_comments)
    with cs c obtain comment where
      c_eq: "c = with_user comment (Some (or_else (Map_get ?m (co_user_id comment))
                      (placeholder (co_user_id comment) (lit ''Unknown''))))"
      by auto
    have u: "user c = Some (or_else (Map_get ?m (co_user_id comment))
                      (placeholder (co_user_id comment) (lit ''Unknown'')))"
      and k: "co_user_id c = co_user_id comment"
      by (simp_all add: c_eq user_with_user co_user_id_with_user)
    have sent: "ids = ?ids" if "Select_profiles_in ids \<in> set (fst (getPostById b i))" for ids
      using getPostById_sent [OF that] Success by simp
    have down: "user c = Some (placeholder (co_user_id c) (lit ''Unknown''))"
      if "select_profiles_in b ?ids = Failure e" for e
      using that by (simp add: u k)
    have missing: "user c = Some (placeholder (co_user_id c) (lit ''Unknown''))"
      if "select_profiles_in b ?ids = Success usersData" "co_user_id c \<notin> pf_id ` set usersData"
      for usersData
      using that by (simp add: u k missing_profile)
    have joined: "\<exists>x \<in> set usersData. pf_id x = co_user_id c \<and> user c = Some x"
      if "select_profiles_in b ?ids = Success usersData" "co_user_id c \<in> pf_id ` set usersData"
      for usersData
      using that looked_up_profile [of "co_user_id comment" usersData
          "placeholder (co_user_id comment) (lit ''Unknown'')"]
      by (auto simp: u k)
    have "user c \<noteq> None"
      by (simp add: u)
    then show ?thesis
      using sent down missing joined by blast
  qed
qed

lemma getPostById_has_comments:
  assumes "snd (getPostById b i) = Some p"
  shows "\<exists>cs. comments p = Some cs"
proof (cases "select_post_by_id b i")
  case (Failure e)
  then show ?thesis
    using assms getPostById_failed [of b i e] by simp
next
  case (Success postData)
  then show ?thesis
    using assms getPostById_found [OF Success] by (auto simp: comments_with_author_comments)
qed

lemma getPostsByAuthor_authors:
  "p \<in> set (snd (getPostsByAuthor b authorId)) \<Longrightarrow> author p \<noteq> None"
  by (auto simp: getPostsByAuthor_def author_with_author split: response.splits)

lemma createPost_author:
  assumes "snd (createPost b postData) = Inr p"
  shows "author p \<noteq> None \<and>
       (\<forall>e. select_full_profile_by_id b (po_author_id p) = Failure e \<longrightarrow>
          author p = Some (placeholder (po_author_id p) (lit ''Unknown''))) \<and>
       (\<forall>a. select_full_profile_by_id b (po_author_id p) = Success a \<longrightarrow> author p = Some a)"
  using assms
  by (auto simp: createPost_def author_with_author po_author_id_with_author
        split: response.splits)

text \<open>
  C1. Every post returned by \<open>getPosts\<close>, \<open>searchPosts\<close>, \<open>getPostsByAuthor\<close>,
  \<open>getPostById\<close> and \<open>createPost\<close> has an author, and every comment of a post
  returned by \<open>getPostById\<close> has a user. Where the profile request failed, or its
  answer has no profile with the wanted id, the field is the placeholder with that id
  (named \<open>Unknown Author\<close> in the two lists, \<open>Unknown\<close> elsewhere); otherwise it is a
  profile of the answer with that id.
\<close>

theorem returned_objects_carry_profiles:
  "(\<forall>p \<in> set (snd (getPosts b)).
       author p \<noteq> None \<and>
       (\<forall>ids. Select_profiles_in ids \<in> set (fst (getPosts b)) \<longrightarrow>
          (\<forall>e. select_profiles_in b ids = Failure e \<longrightarrow>
             author p = Some (placeholder (po_author_id p) (lit ''Unknown Author''))) \<and>
          (\<forall>profilesData. select_profiles_in b ids = Success profilesData \<longrightarrow>
             (po_author_id p \<notin> pf_id ` set profilesData \<longrightarrow>
                author p = Some (placeholder (po_author_id p) (lit ''Unknown Author''))) \<and>
             (po_author_id p \<in> pf_id ` set profilesData \<longrightarrow>
                (\<exists>a \<in> set profilesData. pf_id a = po_author_id p \<and> author p = Some a))))) \<and>
   (\<forall>p \<in> set (snd (searchPosts b query)).
       author p \<noteq> None \<and>
       (\<forall>ids. Select_profiles_in ids \<in> set (fst (searchPosts b query)) \<longrightarrow>
          (\<forall>e. select_profiles_in b ids = Failure e \<longrightarrow>
             author p = Some (placeholder (po_author_id p) (lit ''Unknown Author''))) \<and>
          (\<forall>profilesData. select_profiles_in b ids = Success profilesData \<longrightarrow>
             (po_author_id p \<notin> pf_id ` set profilesData \<longrightarrow>
                author p = Some (placeholder (po_author_id p) (lit ''Unknown Author''))) \<and>
             (po_author_id p \<in> pf_id ` set profilesData \<longrightarrow>
                (\<exists>a \<in> set profilesData. pf_id a = po_author_id p \<and> author p = Some a))))) \<and>
   (\<forall>p \<in> set (snd (getPostsByAuthor b authorId)). author p \<noteq> None) \<and>
   (\<forall>p. snd (getPostById b i) = Some p \<longrightarrow>
       author p \<noteq> None \<and>
       (\<forall>e. select_profile_by_id b (po_author_id p) = Failure e \<longrightarrow>
          author p = Some (placeholder (po_author_id p) (lit ''Unknown''))) \<and>
       (\<forall>a. select_profile_by_id b (po_author_id p) = Success a \<longrightarrow> author p = Some a) \<and>
       (\<exists>cs. comments p = Some cs \<and>
          (\<forall>c \<in> set cs.
       user c \<noteq> None \<and>
       (\<forall>ids. Select_profiles_in ids \<in> set (fst (getPostById b i)) \<longrightarrow>
          (\<forall>e. select_profiles_in b ids = Failure e \<longrightarrow>
             user c = Some (placeholder (co_user_id c) (lit ''Unknown''))) \<and>
          (\<forall>usersData. select_profiles_in b ids = Success usersData \<longrightarrow>
             (co_user_id c \<notin> pf_id ` set usersData \<longrightarrow>
                user c = Some (placeholder (co_user_id c) (lit ''Unknown''))) \<and>
             (co_user_id c \<in> pf_id ` set usersData \<longrightarrow>
                (\<exists>u \<in> set usersData. pf_id u = co_user_id c \<and> user c = Some u))))))) \<and>
   (\<forall>p. snd (createPost b postData) = Inr p \<longrightarrow>
       author p \<noteq> None \<and>
       (\<forall>e. select_full_profile_by_id b (po_author_id p) = Failure e \<longrightarrow>
          author p = Some (placeholder (po_author_id p) (lit ''Unknown''))) \<and>
       (\<forall>a. select_full_profile_by_id b (po_author_id p) = Success a \<longrightarrow> author p = Some a))"
proof -
  have posts: "\<forall>p \<in> set (snd (getPosts b)).
       author p \<noteq> None \<and>
       (\<forall>ids. Select_profiles_in ids \<in> set (fst (getPosts b)) \<longrightarrow>
          (\<forall>e. select_profiles_in b ids = Failure e \<longrightarrow>
             author p = Some (placeholder (po_author_id p) (lit ''Unknown Author''))) \<and>
          (\<forall>profilesData. select_profiles_in b ids = Success profilesData \<longrightarrow>
             (po_author_id p \<notin> pf_id ` set profilesData \<longrightarrow>
                author p = Some (placeholder (po_author_id p) (lit ''Unknown Author''))) \<and>
             (po_author_id p \<in> pf_id ` set profilesData \<longrightarrow>
                (\<exists>a \<in> set profilesData. pf_id a = po_author_id p \<and> author p = Some a))))"
    using getPosts_authors [of _ b] by blast
  have search: "\<forall>p \<in> set (snd (searchPosts b query)).
       author p \<noteq> None \<and>
       (\<forall>ids. Select_profiles_in ids \<in> set (fst (searchPosts b query)) \<longrightarrow>
          (\<forall>e. select_profiles_in b ids = Failure e \<longrightarrow>
             author p = Some (placeholder (po_author_id p) (lit ''Unknown Author''))) \<and>
          (\<forall>profilesData. select_profiles_in b ids = Success profilesData \<longrightarrow>
             (po_author_id p \<notin> pf_id ` set profilesData \<longrightarrow>
                author p = Some (placeholder (po_author_id p) (lit ''Unknown Author''))) \<and>
             (po_author_id p \<in> pf_id ` set profilesData \<longrightarrow>
                (\<exists>a \<in> set profilesData. pf_id a = po_author_id p \<and> author p = Some a))))"
    using searchPosts_authors [of _ b query] by blast
  have byauthor: "\<forall>p \<in> set (snd (getPostsByAuthor b authorId)). author p \<noteq> None"
    using getPostsByAuthor_authors [of _ b authorId] by blast
  have byid: "\<forall>p. snd (getPostById b i) = Some p \<longrightarrow>
       author p \<noteq> None \<and>
       (\<forall>e. select_profile_by_id b (po_author_id p) = Failure e \<longrightarrow>
          author p = Some (placeholder (po_author_id p) (lit ''Unknown''))) \<and>
       (\<forall>a. select_profile_by_id b (po_author_id p) = Success a \<longrightarrow> author p = Some a) \<and>
       (\<exists>cs. comments p = Some cs \<and>
          (\<forall>c \<in> set cs.
       user c \<noteq> None \<and>
       (\<forall>ids. Select_profiles_in ids \<in> set (fst (getPostById b i)) \<longrightarrow>
          (\<forall>e. select_profiles_in b ids = Failure e \<longrightarrow>
             user c = Some (placeholder (co_user_id c) (lit ''Unknown''))) \<and>
          (\<forall>usersData. select_profiles_in b ids = Success usersData \<longrightarrow>
             (co_user_id c \<notin> pf_id ` set usersData \<longrightarrow>
                user c = Some (placeholder (co_user_id c) (lit ''Unknown''))) \<and>
             (co_user_id c \<in> pf_id ` set usersData \<longrightarrow>
                (\<exists>u \<in> set usersData. pf_id u = co_user_id c \<and> user c = Some u))))))"
  proof (intro allI impI)
    fix p
    assume p: "snd (getPostById b i) = Some p"
    obtain cs where cs: "comments p = Some cs"
      using getPostById_has_comments [OF p] by blast
    have "\<forall>c \<in> set cs.
       user c \<noteq> None \<and>
       (\<forall>ids. Select_profiles_in ids \<in> set (fst (getPostById b i)) \<longrightarrow>
          (\<forall>e. select_profiles_in b ids = Failure e \<longrightarrow>
             user c = Some (placeholder (co_user_id c) (lit ''Unknown''))) \<and>
          (\<forall>usersData. select_profiles_in b ids = Success usersData \<longrightarrow>
             (co_user_id c \<notin> pf_id ` set usersData \<longrightarrow>
                user c = Some (placeholder (co_user_id c) (lit ''Unknown''))) \<and>
             (co_user_id c \<in> pf_id ` set usersData \<longrightarrow>
                (\<exists>u \<in> set usersData. pf_id u = co_user_id c \<and> user c = Some u))))"
      using getPostById_users [OF p cs] by blast
    then show "author p \<noteq> None \<and>
       (\<forall>e. select_profile_by_id b (po_author_id p) = Failure e \<longrightarrow>
          author p = Some (placeholder (po_author_id p) (lit ''Unknown''))) \<and>
       (\<forall>a. select_profile_by_id b (po_author_id p) = Success a \<longrightarrow> author p = Some a) \<and>
       (\<exists>cs. comments p = Some cs \<and>
          (\<forall>c \<in> set cs.
       user c \<noteq> None \<and>
       (\<forall>ids. Select_profiles_in ids \<in> set (fst (getPostById b i)) \<longrightarrow>
          (\<forall>e. select_profiles_in b ids = Failure e \<longrightarrow>
             user c = Some (placeholder (co_user_id c) (lit ''Unknown''))) \<and>
          (\<forall>usersData. select_profiles_in b ids = Success usersData \<longrightarrow>
             (co_user_id c \<notin> pf_id ` set usersData \<longrightarrow>
                user c = Some (placeholder (co_user_id c) (lit ''Unknown''))) \<and>
             (co_user_id c \<in> pf_id ` set usersData \<longrightarrow>
                (\<exists>u \<in> set usersData. pf_id u = co_user_id c \<and> user c = Some u))))))"
      using getPostById_author [OF p] cs by blast
  qed
  have create: "\<forall>p. snd (createPost b postData) = Inr p \<longrightarrow>
       author p \<noteq> None \<and>
       (\<forall>e. select_full_profile_by_id b (po_author_id p) = Failure e \<longrightarrow>
          author p = Some (placeholder (po_author_id p) (lit ''Unknown''))) \<and>
       (\<forall>a. select_full_profile_by_id b (po_author_id p) = Success a \<longrightarrow> author p = Some a)"
    using createPost_author [of b postData] by blast
  show ?thesis
    by (rule conjI [OF posts conjI [OF search conjI [OF byauthor conjI [OF byid create]]]])
qed

theorem returned_objects_carry_profiles_witness:
  "author (with_author post_a (Some alice)) = Some alice \<and>
   author (snd (getPosts store_up) ! 1) = Some (placeholder (lit ''u2'') (lit ''Unknown Author'')) \<and>
   author (snd (getPosts store_profiles_down) ! 0) =
     Some (placeholder (lit ''u1'') (lit ''Unknown Author'')) \<and>
   map_option author (snd (getPostById store_up (lit ''p1''))) = Some (Some alice) \<and>
   map_option (\<lambda>p. map_option (map user) (comments p)) (snd (getPostById store_up (lit ''p1''))) =
     Some (Some [Some alice, Some (placeholder (lit ''u3'') (lit ''Unknown''))]) \<and>
   map_sum id author (snd (createPost store_profiles_down new_post_1)) =
     Inr (Some (placeholder (lit ''u1'') (lit ''Unknown'')))"
proof -
  let ?ids = "[lit ''u1'', lit ''u2'']"
  let ?p0 = "with_author post_a (Some alice)"
  let ?p1 = "with_author post_b (Some (placeholder (lit ''u2'') (lit ''Unknown Author'')))"
  let ?q0 = "with_author post_a (Some (placeholder (lit ''u1'') (lit ''Unknown Author'')))"
  note claim_up = returned_objects_carry_profiles
    [of store_up "lit ''Hello''" "lit ''u1''" "lit ''p1''" new_post_1]
  note claim_down = returned_objects_carry_profiles
    [of store_profiles_down "lit ''Hello''" "lit ''u1''" "lit ''p1''" new_post_1]
  have listed: "?p0 \<in> set (snd (getPosts store_up))" "?p1 \<in> set (snd (getPosts store_up))"
    and sent: "Select_profiles_in ?ids \<in> set (fst (getPosts store_up))"
    by (simp_all add: getPosts_store_up)
  have batch: "select_profiles_in store_up ?ids = Success [alice]"
    by (simp add: store_up_def alice_def)
  have keys: "po_author_id ?p0 = lit ''u1''" "po_author_id ?p1 = lit ''u2''"
    "po_author_id ?q0 = lit ''u1''"
    by (simp_all add: po_author_id_with_author post_a_def post_b_def)
  have present: "lit ''u1'' \<in> pf_id ` set [alice]" and absent: "lit ''u2'' \<notin> pf_id ` set [alice]"
    using ids_differ by (simp_all add: alice_def)
  have w0: "author ?p0 = Some alice"
    using claim_up listed(1) sent batch present keys(1) by fastforce
  have "author ?p1 = Some (placeholder (po_author_id ?p1) (lit ''Unknown Author''))"
    using claim_up listed(2) sent batch absent keys(2) by fastforce
  then have w1: "author (snd (getPosts store_up) ! 1) =
      Some (placeholder (lit ''u2'') (lit ''Unknown Author''))"
    by (simp add: getPosts_store_up keys)
  have listed': "?q0 \<in> set (snd (getPosts store_profiles_down))"
    and sent': "Select_profiles_in ?ids \<in> set (fst (getPosts store_profiles_down))"
    by (simp_all add: getPosts_store_profiles_down)
  have batch': "select_profiles_in store_profiles_down ?ids = Failure unavailable"
    by (simp add: store_profiles_down_def)
  have "author ?q0 = Some (placeholder (po_author_id ?q0) (lit ''Unknown Author''))"
    using claim_down listed' sent' batch' by fastforce
  then have w2: "author (snd (getPosts store_profiles_down) ! 0) =
      Some (placeholder (lit ''u1'') (lit ''Unknown Author''))"
    by (simp add: getPosts_store_profiles_down keys)
  have w3: "map_option author (snd (getPostById store_up (lit ''p1''))) = Some (Some alice)"
    and w4: "map_option (\<lambda>p. map_option (map user) (comments p))
        (snd (getPostById store_up (lit ''p1''))) =
      Some (Some [Some alice, Some (placeholder (lit ''u3'') (lit ''Unknown''))])"
    by (simp_all add: getPostById_store_up author_with_author_comments
          comments_with_author_comments user_with_user)
  have w5: "map_sum id author (snd (createPost store_profiles_down new_post_1)) =
      Inr (Some (placeholder (lit ''u1'') (lit ''Unknown'')))"
    by (simp add: createPost_store_profiles_down author_with_author)
  show ?thesis
    using w0 w1 w2 w3 w4 w5 by blast
qed

end
